theory Spec2Isabelle
  imports Complex_Main "HOL-Library.Word"
begin

section \<open>JavaScript strings and arrays\<close>

text \<open>
  A string is a list of characters, each a UTF-16 code unit below 256, so \<open>length\<close>
  stands for the JavaScript \<open>.length\<close>; text with other code units is not modelled. The
  character classes are those of the source's regular expressions, \<open>[a-zA-Z]\<close>, \<open>\w\<close>
  and \<open>\s\<close>, on these code units: the white space is the tab, the line feed, the
  vertical tab, the form feed, the carriage return, the space and the no-break space
  U+00A0.
\<close>

definition is_letter :: "char \<Rightarrow> bool" where
  "is_letter c = (let n = (of_char c :: nat) in (65 \<le> n \<and> n \<le> 90) \<or> (97 \<le> n \<and> n \<le> 122))"

definition is_digit :: "char \<Rightarrow> bool" where
  "is_digit c = (let n = (of_char c :: nat) in 48 \<le> n \<and> n \<le> 57)"

definition is_word_char :: "char \<Rightarrow> bool" where
  "is_word_char c = (is_letter c \<or> is_digit c \<or> c = CHR ''_'')"

definition is_space :: "char \<Rightarrow> bool" where
  "is_space c = (let n = (of_char c :: nat) in (9 \<le> n \<and> n \<le> 13) \<or> n = 32 \<or> n = 160)"

text \<open>The test \<open>/^[a-zA-Z][\w-]*$/.test(s)\<close>.\<close>

definition safe_ident :: "string \<Rightarrow> bool" where
  "safe_ident s =
     (case s of
        [] \<Rightarrow> False
      | c # cs \<Rightarrow> is_letter c \<and> list_all (\<lambda>k. is_word_char k \<or> k = CHR ''-'') cs)"

definition lower_char :: "char \<Rightarrow> char" where
  "lower_char c =
     (case map_of (zip ''ABCDEFGHIJKLMNOPQRSTUVWXYZ'' ''abcdefghijklmnopqrstuvwxyz'') c of
        None \<Rightarrow> c
      | Some l \<Rightarrow> l)"

definition toLowerCase :: "string \<Rightarrow> string" where
  "toLowerCase s = map lower_char s"

definition trim :: "string \<Rightarrow> string" where
  "trim s = rev (dropWhile is_space (rev (dropWhile is_space s)))"

text \<open>\<open>s.split(d)\<close> for a one-character separator: the empty string gives one empty piece.\<close>

fun split_on :: "char \<Rightarrow> string \<Rightarrow> string list" where
  "split_on d [] = [[]]"
| "split_on d (c # cs) =
     (if c = d then [] # split_on d cs
      else (case split_on d cs of [] \<Rightarrow> [[c]] | w # ws \<Rightarrow> (c # w) # ws))"

text \<open>\<open>xs.join(sep)\<close>.\<close>

fun join :: "string \<Rightarrow> string list \<Rightarrow> string" where
  "join sep [] = []"
| "join sep [w] = w"
| "join sep (w # v # ws) = w @ sep @ join sep (v # ws)"

text \<open>Decimal digits of a number inside a template literal.\<close>

definition digit_char :: "nat \<Rightarrow> char" where
  "digit_char d = ''0123456789'' ! (d mod 10)"

fun show_nat :: "nat \<Rightarrow> string" where
  "show_nat n = (if n < 10 then [digit_char n] else show_nat (n div 10) @ [digit_char (n mod 10)])"

declare show_nat.simps [simp del]

definition show_int :: "int \<Rightarrow> string" where
  "show_int i = (if i < 0 then CHR ''-'' # show_nat (nat (- i)) else show_nat (nat i))"

text \<open>
  \<open>Array.prototype.sort(cmp)\<close> is a stable sort: with a consistent comparator the result
  is the one stable ordering of the array, which insertion from the right computes. An
  element goes in front of the first later element it does not compare greater than.
\<close>

fun insert_by :: "('a \<Rightarrow> 'a \<Rightarrow> int) \<Rightarrow> 'a \<Rightarrow> 'a list \<Rightarrow> 'a list" where
  "insert_by cmp a [] = [a]"
| "insert_by cmp a (b # bs) = (if cmp a b \<le> 0 then a # b # bs else b # insert_by cmp a bs)"

definition js_sort :: "('a \<Rightarrow> 'a \<Rightarrow> int) \<Rightarrow> 'a list \<Rightarrow> 'a list" where
  "js_sort cmp xs = foldr (insert_by cmp) xs []"

text \<open>\<open>s || null\<close> on a string or a missing value.\<close>

definition or_null :: "string option \<Rightarrow> string option" where
  "or_null v = (case v of None \<Rightarrow> None | Some s \<Rightarrow> if s = [] then None else Some s)"

section \<open>The DOM as the in-page script reads it\<close>

text \<open>
  \<open>className\<close> is a string on an HTML element and an \<open>SVGAnimatedString\<close> (with
  \<open>baseVal\<close>) on an SVG element.
\<close>

datatype class_attr = ClassString string | ClassAnimated string

record dom_rect =
  rect_x :: real
  rect_y :: real
  rect_width :: real
  rect_height :: real
  rect_top :: real
  rect_bottom :: real
  rect_left :: real
  rect_right :: real

record computed_style =
  css_cursor :: string
  css_display :: string
  css_visibility :: string
  css_opacity :: string
  css_backgroundColor :: string
  css_color :: string
  css_zIndex :: string

text \<open>
  The parent of an element, as far as the selector ranker reads it: its tag, id and
  classes, and the tag names of its children in order.
\<close>

record parent_element =
  parent_tagName :: string
  parent_id :: string
  parent_className :: class_attr
  parent_children :: "string list"

text \<open>
  One DOM element. A property that is missing and one that is the empty string are both
  falsy, and the script only tests their truthiness, so both are the empty string here.
  \<open>el_node\<close> is the identity of the node; \<open>el_child_index\<close> is its position among
  its parent's children. The \<open>id\<close> attribute is in \<open>el_attributes\<close>. \<open>el_controls\<close>
  is empty unless the element is a form: then it lists the form's controls, each with
  the name it is listed under (its \<open>name\<close> or \<open>id\<close> attribute) and its interface, such
  as \<open>HTMLInputElement\<close>. A control shadows the form's property of its name; the model
  follows this for the property \<open>id\<close>, and the other properties are as the fields give
  them.
\<close>

record dom_element =
  el_node :: nat
  el_tagName :: string
  el_controls :: "(string \<times> string) list"
  el_className :: class_attr
  el_attributes :: "string \<rightharpoonup> string"
  el_textContent :: string
  el_name :: string
  el_type :: string
  el_placeholder :: string
  el_href :: string
  el_src :: string
  el_alt :: string
  el_title :: string
  el_value :: string
  el_checked :: bool
  el_disabled :: bool
  el_readOnly :: bool
  el_required :: bool
  el_parentElement :: "parent_element option"
  el_child_index :: nat
  el_rect :: dom_rect
  el_style :: computed_style
  el_offsetParent_null :: bool

text \<open>\<open>element.getAttribute(a)\<close> in a truthiness test or before \<open>|| null\<close>.\<close>

definition getAttribute :: "dom_element \<Rightarrow> string \<Rightarrow> string option" where
  "getAttribute e a = or_null (el_attributes e a)"

definition hasAttribute :: "dom_element \<Rightarrow> string \<Rightarrow> bool" where
  "hasAttribute e a = (el_attributes e a \<noteq> None)"

text \<open>
  What \<open>element.id\<close> gives: the \<open>id\<close> attribute, or the empty string without one; on
  a form with a control listed as \<open>id\<close>, that control, an element object.
\<close>

datatype dom_property = PropertyString string | PropertyElement string

definition id_attribute :: "dom_element \<Rightarrow> string" where
  "id_attribute e = (case el_attributes e ''id'' of None \<Rightarrow> [] | Some v \<Rightarrow> v)"

definition element_id :: "dom_element \<Rightarrow> dom_property" where
  "element_id e =
     (case map_of (el_controls e) ''id'' of
        None \<Rightarrow> PropertyString (id_attribute e)
      | Some interface \<Rightarrow> PropertyElement interface)"


text \<open>A property in a truthiness test, and as a string, where an element prints its interface.\<close>

definition property_truthy :: "dom_property \<Rightarrow> bool" where
  "property_truthy v = (case v of PropertyString s \<Rightarrow> s \<noteq> [] | PropertyElement i \<Rightarrow> True)"

definition property_string :: "dom_property \<Rightarrow> string" where
  "property_string v =
     (case v of PropertyString s \<Rightarrow> s | PropertyElement i \<Rightarrow> ''[object '' @ i @ '']'')"

section \<open>Selector Ranker\<close>

definition class_tokens :: "string \<Rightarrow> string list" where
  "class_tokens s =
     filter (\<lambda>c. c \<noteq> [] \<and> CHR '':'' \<notin> set c \<and> safe_ident c) (split_on CHR '' '' s)"

definition getClassNames :: "class_attr \<Rightarrow> string list" where
  "getClassNames cn =
     (case cn of
        ClassString s \<Rightarrow> if s = [] then [] else class_tokens s
      | ClassAnimated b \<Rightarrow> class_tokens b)"

record scored_selector =
  sel_selector :: string
  sel_score :: int

definition candidate :: "string \<Rightarrow> int \<Rightarrow> scored_selector" where
  "candidate s n = \<lparr> sel_selector = s, sel_score = n \<rparr>"

record selector_triple =
  primary :: "string option"
  fallback :: "string option"
  tertiary :: "string option"

text \<open>An attribute selector \<open>[a="v"]\<close>.\<close>

definition attr_selector :: "string \<Rightarrow> string \<Rightarrow> string" where
  "attr_selector a v = ''['' @ a @ ''=\"'' @ v @ ''\"]''"

definition id_candidates :: "dom_element \<Rightarrow> scored_selector list" where
  "id_candidates e =
     (if property_truthy (element_id e) \<and> safe_ident (property_string (element_id e))
      then [candidate (''#'' @ property_string (element_id e)) 100] else [])"

definition attribute_candidate :: "dom_element \<Rightarrow> string \<Rightarrow> int \<Rightarrow> scored_selector list" where
  "attribute_candidate e a n =
     (case getAttribute e a of None \<Rightarrow> [] | Some v \<Rightarrow> [candidate (attr_selector a v) n])"

definition name_candidates :: "dom_element \<Rightarrow> scored_selector list" where
  "name_candidates e =
     (if el_name e \<noteq> [] \<and> el_tagName e = ''INPUT''
      then [candidate (''input[name=\"'' @ el_name e @ ''\"]'') 85] else [])"

definition role_candidates :: "dom_element \<Rightarrow> scored_selector list" where
  "role_candidates e =
     (case getAttribute e ''role'' of
        None \<Rightarrow> []
      | Some role \<Rightarrow>
          (let t = trim (el_textContent e) in
           if t \<noteq> [] \<and> length t < 50
           then [candidate (''[role=\"'' @ role @ ''\"]:has-text(\"'' @ t @ ''\")'') 80]
           else []))"

definition class_candidates :: "dom_element \<Rightarrow> scored_selector list" where
  "class_candidates e =
     (let tagName = toLowerCase (el_tagName e); classNames = getClassNames (el_className e) in
      if length classNames > 0
      then [candidate (tagName @ ''.'' @ join ''.'' (take 2 classNames)) 70]
      else [])"

definition text_candidates :: "dom_element \<Rightarrow> scored_selector list" where
  "text_candidates e =
     (let tagName = toLowerCase (el_tagName e); t = trim (el_textContent e) in
      if t \<noteq> [] \<and> length t > 2 \<and> length t < 50 \<and> CHR 0x0A \<notin> set t
      then (if tagName = ''button'' \<or> tagName = ''a''
            then [candidate (tagName @ '':has-text(\"'' @ t @ ''\")'') 75] else [])
      else [])"

text \<open>
  The siblings are the parent's children with the element's tag; \<open>indexOf\<close> counts the
  ones in front of the element.
\<close>

definition sibling_candidates :: "dom_element \<Rightarrow> scored_selector list" where
  "sibling_candidates e =
     (case el_parentElement e of
        None \<Rightarrow> []
      | Some parent \<Rightarrow>
          (let tagName = toLowerCase (el_tagName e);
               siblings = filter (\<lambda>t. t = el_tagName e) (parent_children parent) in
           if length siblings > 1
           then (let index = length (filter (\<lambda>t. t = el_tagName e)
                                       (take (el_child_index e) (parent_children parent))) + 1;
                     parentSelector =
                       (if parent_id parent \<noteq> [] then ''#'' @ parent_id parent
                        else (case getClassNames (parent_className parent) of
                                [] \<Rightarrow> toLowerCase (parent_tagName parent)
                              | c # cs \<Rightarrow> toLowerCase (parent_tagName parent) @ ''.'' @ c))
                 in [candidate (parentSelector @ '' > '' @ tagName @ '':nth-child(''
                                 @ show_nat index @ '')'') 60])
           else []))"

definition type_candidates :: "dom_element \<Rightarrow> scored_selector list" where
  "type_candidates e =
     (case getAttribute e ''type'' of
        None \<Rightarrow> []
      | Some t \<Rightarrow>
          if t = ''submit'' \<or> t = ''button'' then [candidate (attr_selector ''type'' t) 50] else [])"

text \<open>The candidates in the order the script pushes them.\<close>

definition selector_candidates :: "dom_element \<Rightarrow> scored_selector list" where
  "selector_candidates e =
     id_candidates e
     @ attribute_candidate e ''data-testid'' 95
     @ attribute_candidate e ''data-test'' 94
     @ attribute_candidate e ''aria-label'' 90
     @ name_candidates e
     @ role_candidates e
     @ class_candidates e
     @ text_candidates e
     @ sibling_candidates e
     @ attribute_candidate e ''placeholder'' 65
     @ type_candidates e"

text \<open>The comparator \<open>(a, b) => b.score - a.score\<close>.\<close>

definition by_score_desc :: "scored_selector \<Rightarrow> scored_selector \<Rightarrow> int" where
  "by_score_desc a b = sel_score b - sel_score a"

text \<open>\<open>xs[i] || null\<close> on an array of strings.\<close>

definition nth_or_null :: "string list \<Rightarrow> nat \<Rightarrow> string option" where
  "nth_or_null xs i = or_null (if i < length xs then Some (xs ! i) else None)"

definition getOptimalSelector :: "dom_element \<Rightarrow> selector_triple" where
  "getOptimalSelector e =
     (let selectors = js_sort by_score_desc (selector_candidates e);
          optimalSelectors = map sel_selector (take 3 selectors)
      in \<lparr> primary = nth_or_null optimalSelectors 0,
           fallback = nth_or_null optimalSelectors 1,
           tertiary = nth_or_null optimalSelectors 2 \<rparr>)"

section \<open>Page Snapshotter\<close>

record element_position =
  pos_x :: int
  pos_y :: int
  pos_width :: int
  pos_height :: int
  centerX :: int
  centerY :: int
  inViewport :: bool

record element_style =
  cursor :: string
  display :: string
  backgroundColor :: string
  color :: string
  zIndex :: string

text \<open>
  The Element Descriptor that \<open>processElement\<close> returns. The fields \<open>text\<close>,
  \<open>id\<close>, \<open>name\<close>, \<open>type\<close>, \<open>title\<close> and \<open>value\<close> of the source carry the
  prefix \<open>elem_\<close> here.
\<close>

record element_data =
  tag :: string
  elem_text :: string
  elem_id :: "string option"
  className :: "string option"
  elem_name :: "string option"
  elem_type :: "string option"
  placeholder :: "string option"
  href :: "string option"
  src :: "string option"
  alt :: "string option"
  elem_title :: "string option"
  role :: "string option"
  ariaLabel :: "string option"
  dataTestId :: "string option"
  elem_value :: "string option"
  checked :: "bool option"
  disabled :: "bool option"
  readOnly :: "bool option"
  required :: "bool option"
  selector :: "string option"
  fallbackSelector :: "string option"
  tertiarySelector :: "string option"
  position :: element_position
  style :: element_style
  isInteractable :: bool
  parent :: "string option"
  xpath :: "string option"

text \<open>The descriptor after \<open>el.index = index\<close>.\<close>

record indexed_element = element_data +
  index :: nat

record viewport =
  innerWidth :: real
  innerHeight :: real

text \<open>\<open>Math.round\<close>: the nearest integer, a half rounds up.\<close>

definition math_round :: "real \<Rightarrow> int" where
  "math_round r = \<lfloor>r + 1 / 2\<rfloor>"

text \<open>\<open>b || null\<close> on a boolean property.\<close>

definition true_or_null :: "bool \<Rightarrow> bool option" where
  "true_or_null b = (if b then Some True else None)"

definition isElementInteractive :: "dom_element \<Rightarrow> bool" where
  "isElementInteractive e =
     (let tagName = toLowerCase (el_tagName e);
          type = el_attributes e ''type'';
          role = el_attributes e ''role'';
          classNames = getClassNames (el_className e)
      in tagName = ''button'' \<or> tagName = ''a'' \<or> tagName = ''input'' \<or> tagName = ''select''
         \<or> tagName = ''textarea''
         \<or> type = Some ''submit'' \<or> type = Some ''button''
         \<or> role = Some ''button'' \<or> role = Some ''link'' \<or> role = Some ''tab''
         \<or> role = Some ''menuitem''
         \<or> hasAttribute e ''onclick'' \<or> hasAttribute e ''ng-click'' \<or> hasAttribute e ''@click''
         \<or> list_ex (\<lambda>c. c = ''btn'' \<or> c = ''button'') classNames
         \<or> css_cursor (el_style e) = ''pointer'')"

definition isVisible :: "viewport \<Rightarrow> dom_element \<Rightarrow> bool" where
  "isVisible win e =
     (let rect = el_rect e; styles = el_style e in
      rect_width rect > 0 \<and> rect_height rect > 0
      \<and> rect_top rect < innerHeight win \<and> rect_bottom rect > 0
      \<and> rect_left rect < innerWidth win \<and> rect_right rect > 0
      \<and> css_display styles \<noteq> ''none'' \<and> css_visibility styles \<noteq> ''hidden''
      \<and> css_opacity styles \<noteq> ''0'' \<and> \<not> el_offsetParent_null e)"

text \<open>
  \<open>element.id || null\<close> as it reaches the snapshot: a string stays, and an element object
  inside the value that \<open>page.evaluate\<close> returns is serialized by Playwright to the text
  \<open>ref: <Node>\<close>.
\<close>

definition serialized_id :: "dom_property \<Rightarrow> string option" where
  "serialized_id v =
     (case v of PropertyString s \<Rightarrow> or_null (Some s) | PropertyElement i \<Rightarrow> Some ''ref: <Node>'')"

definition processElement :: "viewport \<Rightarrow> dom_element \<Rightarrow> element_data option" where
  "processElement win e =
     (if \<not> isVisible win e then None
      else
        (let rect = el_rect e; styles = el_style e;
             tagName = toLowerCase (el_tagName e);
             text = take 100 (trim (el_textContent e));
             isInteractive = isElementInteractive e;
             classNames = getClassNames (el_className e);
             selectors = getOptimalSelector e
         in Some \<lparr>
              tag = tagName,
              elem_text = text,
              elem_id = serialized_id (element_id e),
              className = or_null (Some (join '' '' classNames)),
              elem_name = or_null (Some (el_name e)),
              elem_type = or_null (Some (el_type e)),
              placeholder = or_null (Some (el_placeholder e)),
              href = or_null (Some (el_href e)),
              src = or_null (Some (el_src e)),
              alt = or_null (Some (el_alt e)),
              elem_title = or_null (Some (el_title e)),
              role = getAttribute e ''role'',
              ariaLabel = getAttribute e ''aria-label'',
              dataTestId = getAttribute e ''data-testid'',
              elem_value = or_null (Some (el_value e)),
              checked = true_or_null (el_checked e),
              disabled = true_or_null (el_disabled e),
              readOnly = true_or_null (el_readOnly e),
              required = true_or_null (el_required e),
              selector = primary selectors,
              fallbackSelector = fallback selectors,
              tertiarySelector = tertiary selectors,
              position = \<lparr>
                pos_x = math_round (rect_x rect),
                pos_y = math_round (rect_y rect),
                pos_width = math_round (rect_width rect),
                pos_height = math_round (rect_height rect),
                centerX = math_round (rect_x rect + rect_width rect / 2),
                centerY = math_round (rect_y rect + rect_height rect / 2),
                inViewport = (rect_top rect \<ge> 0 \<and> rect_bottom rect \<le> innerHeight win) \<rparr>,
              style = \<lparr>
                cursor = css_cursor styles,
                display = css_display styles,
                backgroundColor = css_backgroundColor styles,
                color = css_color styles,
                zIndex = css_zIndex styles \<rparr>,
              isInteractable = isInteractive,
              parent = (case el_parentElement e of
                          None \<Rightarrow> None
                        | Some p \<Rightarrow> or_null (Some (parent_tagName p))),
              xpath = None \<rparr>))"

text \<open>
  The page the script runs in. \<open>interactiveElements\<close> is what
  \<open>document.querySelectorAll\<close> returns for the fixed interactive query and
  \<open>allElements\<close> what it returns for \<open>*\<close>, both in document order.
\<close>

record document =
  doc_url :: string
  doc_title :: string
  doc_hostname :: string
  doc_readyState :: string
  doc_activeElement :: "string option"
  doc_window :: viewport
  interactiveElements :: "dom_element list"
  allElements :: "dom_element list"
  doc_headings :: "string list"
  doc_forms :: nat
  doc_images :: nat
  doc_videos :: nat
  doc_bodyInnerText :: string

text \<open>
  The first \<open>forEach\<close>: the state is the set \<open>processedElements\<close> (node identities) and
  \<open>snapshot.elements\<close>.
\<close>

definition interactive_step ::
  "viewport \<Rightarrow> dom_element \<Rightarrow> nat set \<times> element_data list \<Rightarrow> nat set \<times> element_data list" where
  "interactive_step win e st =
     (case st of (processedElements, elements) \<Rightarrow>
        if el_node e \<in> processedElements then (processedElements, elements)
        else (case processElement win e of
                None \<Rightarrow> (insert (el_node e) processedElements, elements)
              | Some elementData \<Rightarrow> (insert (el_node e) processedElements, elements @ [elementData])))"

text \<open>The second \<open>forEach\<close>, over every element of the document.\<close>

definition generic_step ::
  "viewport \<Rightarrow> dom_element \<Rightarrow> nat set \<times> element_data list \<Rightarrow> nat set \<times> element_data list" where
  "generic_step win e st =
     (case st of (processedElements, elements) \<Rightarrow>
        if el_node e \<in> processedElements \<or> length elements \<ge> 100 then (processedElements, elements)
        else (case processElement win e of
                None \<Rightarrow> (processedElements, elements)
              | Some elementData \<Rightarrow>
                  if length (elem_text elementData) > 0
                  then (processedElements, elements @ [elementData])
                  else (processedElements, elements)))"

text \<open>\<open>snapshot.elements\<close> when both passes are over, before it is sorted.\<close>

definition scanned_elements :: "document \<Rightarrow> element_data list" where
  "scanned_elements doc =
     snd (fold (generic_step (doc_window doc)) (allElements doc)
            (fold (interactive_step (doc_window doc)) (interactiveElements doc) ({}, [])))"

text \<open>The comparator of \<open>snapshot.elements.sort\<close>.\<close>

definition element_order :: "element_data \<Rightarrow> element_data \<Rightarrow> int" where
  "element_order a b =
     (if isInteractable a \<and> \<not> isInteractable b then - 1
      else if \<not> isInteractable a \<and> isInteractable b then 1
      else if inViewport (position a) \<and> \<not> inViewport (position b) then - 1
      else if \<not> inViewport (position a) \<and> inViewport (position b) then 1
      else pos_y (position a) - pos_y (position b))"

text \<open>\<open>snapshot.elements.forEach((el, index) => { el.index = index })\<close>.\<close>

definition assign_index :: "element_data list \<Rightarrow> indexed_element list" where
  "assign_index els = map (\<lambda>(el, i). element_data.extend el \<lparr> index = i \<rparr>) (zip els [0..<length els])"

record page_content =
  headings :: "string list"
  forms :: nat
  images :: nat
  videos :: nat
  bodyTextSample :: string

record page_snapshot =
  url :: string
  title :: string
  domain :: string
  readyState :: string
  activeElement :: "string option"
  elements :: "indexed_element list"
  pageContent :: page_content

text \<open>The function that \<open>getCurrentPageSnapshot\<close> evaluates in the page.\<close>

definition page_script :: "document \<Rightarrow> page_snapshot" where
  "page_script doc =
     \<lparr> url = doc_url doc,
       title = doc_title doc,
       domain = doc_hostname doc,
       readyState = doc_readyState doc,
       activeElement = doc_activeElement doc,
       elements = assign_index (take 75 (js_sort element_order (scanned_elements doc))),
       pageContent = \<lparr>
         headings = map trim (take 5 (doc_headings doc)),
         forms = doc_forms doc,
         images = doc_images doc,
         videos = doc_videos doc,
         bodyTextSample = take 500 (doc_bodyInnerText doc) \<rparr> \<rparr>"

section \<open>Decisions, results and telemetry\<close>

text \<open>
  What JavaScript code can throw: an \<open>Error\<close> with its message (a \<open>TypeError\<close> is
  one), or the value \<open>undefined\<close> (\<open>throw lastError\<close> with nothing caught).
\<close>

datatype thrown = Error string | ThrownUndefined

text \<open>
  A value of a field of the oracle's reply, as \<open>JSON.parse\<close> gives it: missing, \<open>null\<close>,
  a boolean, a number, a string, or an object or array. A number \<open>Num n\<close> is a signed
  integer of 54 bits, read by \<open>sint\<close>: an integer from \<open>-2^53\<close> to \<open>2^53 - 1\<close>, which
  is a double and prints as its decimal digits. Fractions and larger numbers, whose
  printing is a matter of floating point, are not modelled. An object or array is kept as what its conversion
  to a string gives: \<open>Object (Some s)\<close> prints as \<open>s\<close> (a plain object as
  \<open>[object Object]\<close>, an array as its elements joined by commas), and \<open>Object None\<close>
  cannot be converted, as an object with an own key \<open>toString\<close> cannot, for the value
  under that key is not callable: the conversion throws a \<open>TypeError\<close>.
\<close>

datatype jsval =
  Undefined | Null | Bool bool | Num "54 word" | Str string | Object "string option"

text \<open>A string between single quotes, as the template literals of the source write it.\<close>

definition sq :: "string \<Rightarrow> string" where
  "sq s = [CHR 0x27] @ s @ [CHR 0x27]"

text \<open>The conversion to a string: \<open>${v}\<close> inside a template literal, and the first step of \<open>parseInt(v)\<close>.\<close>

definition to_string :: "jsval \<Rightarrow> thrown + string" where
  "to_string v =
     (case v of
        Undefined \<Rightarrow> Inr ''undefined''
      | Null \<Rightarrow> Inr ''null''
      | Bool c \<Rightarrow> Inr (if c then ''true'' else ''false'')
      | Num n \<Rightarrow> Inr (show_int (sint n))
      | Str s \<Rightarrow> Inr s
      | Object (Some s) \<Rightarrow> Inr s
      | Object None \<Rightarrow> Inl (Error ''Cannot convert object to primitive value''))"

text \<open>The values that the conversion to a string takes.\<close>

definition printable :: "jsval \<Rightarrow> bool" where
  "printable v = (case to_string v of Inl e \<Rightarrow> False | Inr s \<Rightarrow> True)"

definition truthy :: "jsval \<Rightarrow> bool" where
  "truthy v =
     (case v of
        Undefined \<Rightarrow> False
      | Null \<Rightarrow> False
      | Bool c \<Rightarrow> c
      | Num n \<Rightarrow> n \<noteq> 0
      | Str s \<Rightarrow> s \<noteq> []
      | Object conversion \<Rightarrow> True)"

text \<open>\<open>v || ""\<close>.\<close>

definition or_empty :: "jsval \<Rightarrow> jsval" where
  "or_empty v = (if truthy v then v else Str [])"

text \<open>
  \<open>parseInt\<close> with no radix converts its argument to a string and reads it: leading
  white space, a sign, \<open>0x\<close> for base 16, then the longest run of digits; \<open>None\<close> is
  \<open>NaN\<close>. The result is the integer that the digits denote. JavaScript rounds it to a
  double, which changes it, and the way it prints, only from \<open>2^53\<close> on.
\<close>

definition digit_of :: "char \<Rightarrow> nat option" where
  "digit_of c =
     (let n = (of_char c :: nat) in
      if 48 \<le> n \<and> n \<le> 57 then Some (n - 48)
      else if 97 \<le> n \<and> n \<le> 102 then Some (n - 87)
      else if 65 \<le> n \<and> n \<le> 70 then Some (n - 55)
      else None)"

definition is_digit_in :: "nat \<Rightarrow> char \<Rightarrow> bool" where
  "is_digit_in radix c = (case digit_of c of None \<Rightarrow> False | Some d \<Rightarrow> d < radix)"

definition digits_value :: "nat \<Rightarrow> string \<Rightarrow> nat" where
  "digits_value radix ds = foldl (\<lambda>acc c. acc * radix + (case digit_of c of None \<Rightarrow> 0 | Some d \<Rightarrow> d)) 0 ds"

definition parse_digits :: "nat \<Rightarrow> string \<Rightarrow> nat option" where
  "parse_digits radix s =
     (let ds = takeWhile (is_digit_in radix) s in
      if ds = [] then None else Some (digits_value radix ds))"

definition parse_unsigned :: "string \<Rightarrow> nat option" where
  "parse_unsigned s =
     (case s of
        z # k # r \<Rightarrow>
          if z = CHR ''0'' \<and> (k = CHR ''x'' \<or> k = CHR ''X'') then parse_digits 16 r
          else parse_digits 10 s
      | _ \<Rightarrow> parse_digits 10 s)"

definition parseInt_string :: "string \<Rightarrow> int option" where
  "parseInt_string s =
     (case dropWhile is_space s of
        [] \<Rightarrow> None
      | c # r \<Rightarrow>
          if c = CHR ''-'' then map_option (\<lambda>n. - int n) (parse_unsigned r)
          else if c = CHR ''+'' then map_option int (parse_unsigned r)
          else map_option int (parse_unsigned (c # r)))"

definition parseInt :: "jsval \<Rightarrow> thrown + int option" where
  "parseInt v = (case to_string v of Inl e \<Rightarrow> Inl e | Inr s \<Rightarrow> Inr (parseInt_string s))"

text \<open>\<open>${n}\<close> for the result of \<open>parseInt\<close>.\<close>

definition show_number :: "int option \<Rightarrow> string" where
  "show_number n = (case n of None \<Rightarrow> ''NaN'' | Some i \<Rightarrow> show_int i)"

text \<open>\<open>n || d\<close> for the result of \<open>parseInt\<close>: \<open>NaN\<close> and 0 give the default.\<close>

definition number_or :: "int option \<Rightarrow> int \<Rightarrow> int" where
  "number_or n d = (case n of None \<Rightarrow> d | Some i \<Rightarrow> if i = 0 then d else i)"

text \<open>
  The Decision that the oracle's JSON reply parses to, when it is not \<open>null\<close>: the
  methods take a \<open>decision option\<close>, where \<open>None\<close> is the reply \<open>null\<close>. A reply that
  is a number, a string, a boolean or an array has none of the fields, as the record
  with every field missing. Two fields are typed: the selector is a string, or is
  missing, and the fallback selectors are an array of strings, or are missing; replies
  with other values there are not modelled. The field \<open>value\<close> is \<open>d_value\<close> and
  \<open>selector\<close> is \<open>d_selector\<close>.
\<close>

record decision =
  action :: jsval
  target :: jsval
  d_value :: jsval
  d_selector :: "string option"
  fallbackSelectors :: "string list option"
  waitBefore :: jsval
  waitAfter :: jsval
  scrollIntoView :: jsval
  verifyVisible :: jsval
  reasoning :: jsval
  description :: jsval
  confidence :: jsval

text \<open>The result object of \<open>executeAction\<close>, which is also the history entry.\<close>

record execution_result =
  res_action :: jsval
  res_target :: jsval
  res_value :: jsval
  res_description :: jsval
  res_success :: bool
  res_error :: string
  res_reasoning :: jsval
  res_confidence :: jsval
  res_playwrightCode :: string

record execution_summary =
  totalSteps :: nat
  successfulSteps :: nat
  failedSteps :: nat
  goalCompleted :: bool

text \<open>
  The report of \<open>executeGoal\<close>: \<open>rep_error\<close> is \<open>None\<close> in \<open>finalResult\<close>, which has no
  such field, and the message in \<open>errorResult\<close>.
\<close>

record report =
  rep_success :: bool
  rep_error :: "string option"
  rep_goal :: string
  rep_steps :: "execution_result list"
  testCode :: string
  executionSummary :: execution_summary

text \<open>What \<open>broadcast\<close> sends, one constructor for each \<open>type\<close>, with its other fields.\<close>

datatype event =
    ExecutionStart string
  | StepStart nat string
  | PageSnapshot string nat nat
  | AiThinking nat
  | AiDecision "decision option" nat
  | ErrorMessage string
  | ActionStart jsval jsval nat
  | Retry string string
  | ActionComplete execution_result nat
  | GoalCompleted nat
  | Warning string nat
  | MaxStepsReached nat
  | ExecutionComplete report
  | ExecutionError string report

definition is_retry :: "event \<Rightarrow> bool" where
  "is_retry ev = (case ev of Retry m e \<Rightarrow> True | _ \<Rightarrow> False)"

definition is_max_steps :: "event \<Rightarrow> bool" where
  "is_max_steps ev = (case ev of MaxStepsReached n \<Rightarrow> True | _ \<Rightarrow> False)"

section \<open>The browser and the generator\<close>

text \<open>
  A call of the browser automation library or of the oracle takes the outside world
  from one state to the next and resolves to a value or rejects with an \<open>Error\<close>, of
  which the message is kept.
\<close>

type_synonym ('w, 'a) page_op = "'w \<Rightarrow> (string + 'a) \<times> 'w"

record bounding_box =
  box_width :: real
  box_height :: real

text \<open>
  The calls the generator makes, over a world \<open>'w\<close> that holds the page, the clock and
  the oracle. An element handle is a number. \<open>loadStateOrTimeout\<close> is the
  \<open>Promise.race\<close> of \<open>waitForLoadState\<close> and a 3000 ms timeout, \<open>evaluateQuiescence\<close>
  the in-page wait for the mutations to settle, \<open>evaluateSnapshot\<close> the document that
  the snapshot script finds when \<open>page.evaluate\<close> runs it, and \<open>chatCompletion\<close> the
  oracle's reply to the prompt built from the goal, the snapshot and the history, parsed
  by \<open>JSON.parse\<close>.
\<close>

record 'w browser =
  waitForTimeout :: "int \<Rightarrow> ('w, unit) page_op"
  loadStateOrTimeout :: "('w, unit) page_op"
  evaluateQuiescence :: "('w, unit) page_op"
  screenshot :: "('w, unit) page_op"
  evaluateSnapshot :: "('w, document) page_op"
  dateNow :: "'w \<Rightarrow> int \<times> 'w"
  goto :: "string \<Rightarrow> ('w, unit) page_op"
  waitForSelector :: "string \<Rightarrow> int \<Rightarrow> ('w, nat) page_op"
  handleIsVisible :: "nat \<Rightarrow> ('w, bool) page_op"
  handleIsEnabled :: "nat \<Rightarrow> ('w, bool) page_op"
  scrollIntoViewIfNeeded :: "nat \<Rightarrow> ('w, unit) page_op"
  boundingBox :: "nat \<Rightarrow> ('w, bounding_box option) page_op"
  clickAt :: "nat \<Rightarrow> real \<Rightarrow> real \<Rightarrow> ('w, unit) page_op"
  evaluateClick :: "nat \<Rightarrow> ('w, unit) page_op"
  handleClick :: "nat \<Rightarrow> ('w, unit) page_op"
  keyboardPress :: "jsval \<Rightarrow> ('w, unit) page_op"
  handleType :: "nat \<Rightarrow> jsval \<Rightarrow> ('w, unit) page_op"
  handleFill :: "nat \<Rightarrow> string \<Rightarrow> ('w, unit) page_op"
  handleHover :: "nat \<Rightarrow> ('w, unit) page_op"
  evaluateScrollBy :: "int \<Rightarrow> ('w, unit) page_op"
  chatCompletion ::
    "string \<Rightarrow> page_snapshot \<Rightarrow> execution_result list \<Rightarrow> ('w, decision option) page_op"

text \<open>
  The state of one \<open>TrulyIntelligentE2EGenerator\<close>, with the world it drives and the
  messages broadcast so far, oldest first. \<open>page_initialized\<close> says that \<open>this.page\<close>
  is set.
\<close>

record 'w generator =
  world :: 'w
  page_initialized :: bool
  currentGoal :: "string option"
  executionHistory :: "execution_result list"
  testSteps :: "string list"
  maxSteps :: nat
  stepCount :: nat
  broadcasts :: "event list"

text \<open>
  An asynchronous method: from a state of the generator to the value it resolves to, or
  what it throws, and the state it leaves. Each \<open>await\<close> is a step of the sequence.
\<close>

type_synonym ('w, 'a) js = "'w generator \<Rightarrow> (thrown + 'a) \<times> 'w generator"

definition js_return :: "'a \<Rightarrow> ('w, 'a) js" where
  "js_return a = (\<lambda>s. (Inr a, s))"

definition js_throw :: "thrown \<Rightarrow> ('w, 'a) js" where
  "js_throw e = (\<lambda>s. (Inl e, s))"

definition js_bind :: "('w, 'a) js \<Rightarrow> ('a \<Rightarrow> ('w, 'b) js) \<Rightarrow> ('w, 'b) js" where
  "js_bind m f = (\<lambda>s. case m s of (Inl e, s') \<Rightarrow> (Inl e, s') | (Inr a, s') \<Rightarrow> f a s')"

definition js_then :: "('w, 'a) js \<Rightarrow> ('w, 'b) js \<Rightarrow> ('w, 'b) js" where
  "js_then m n = js_bind m (\<lambda>a. n)"

text \<open>\<open>try { m } catch (error) { h error }\<close>.\<close>

definition js_try :: "('w, 'a) js \<Rightarrow> (thrown \<Rightarrow> ('w, 'a) js) \<Rightarrow> ('w, 'a) js" where
  "js_try m h = (\<lambda>s. case m s of (Inl e, s') \<Rightarrow> h e s' | (Inr a, s') \<Rightarrow> (Inr a, s'))"

text \<open>\<open>error.message\<close>: a \<open>TypeError\<close> when the caught value is \<open>undefined\<close>.\<close>

definition message_of :: "thrown \<Rightarrow> ('w, string) js" where
  "message_of e =
     (case e of
        Error m \<Rightarrow> js_return m
      | ThrownUndefined \<Rightarrow>
          js_throw (Error (''Cannot read properties of undefined (reading '' @ sq ''message'' @ '')'')))"

text \<open>A call on an element handle, or of the oracle: it does not go through \<open>this.page\<close>.\<close>

definition world_call :: "('w, 'a) page_op \<Rightarrow> ('w, 'a) js" where
  "world_call op =
     (\<lambda>s. case op (world s) of
            (Inl m, w) \<Rightarrow> (Inl (Error m), s\<lparr>world := w\<rparr>)
          | (Inr a, w) \<Rightarrow> (Inr a, s\<lparr>world := w\<rparr>))"

text \<open>
  A call \<open>this.page.member...\<close>: a \<open>TypeError\<close> that names the member when the page is
  not set.
\<close>

definition page_call :: "string \<Rightarrow> ('w, 'a) page_op \<Rightarrow> ('w, 'a) js" where
  "page_call member op =
     (\<lambda>s. if \<not> page_initialized s
          then (Inl (Error (''Cannot read properties of null (reading '' @ sq member @ '')'')), s)
          else world_call op s)"

text \<open>A value or a throw that is already decided.\<close>

definition js_lift :: "thrown + 'a \<Rightarrow> ('w, 'a) js" where
  "js_lift r = (case r of Inl e \<Rightarrow> js_throw e | Inr a \<Rightarrow> js_return a)"

text \<open>\<open>Date.now()\<close>.\<close>

definition date_now :: "'w browser \<Rightarrow> ('w, int) js" where
  "date_now b = (\<lambda>s. case dateNow b (world s) of (now, w) \<Rightarrow> (Inr now, s\<lparr>world := w\<rparr>))"

definition broadcast :: "event \<Rightarrow> ('w, unit) js" where
  "broadcast ev = (\<lambda>s. (Inr (), s\<lparr>broadcasts := broadcasts s @ [ev]\<rparr>))"

definition get_state :: "('w generator \<Rightarrow> 'a) \<Rightarrow> ('w, 'a) js" where
  "get_state f = (\<lambda>s. (Inr (f s), s))"

definition set_state :: "('w generator \<Rightarrow> 'w generator) \<Rightarrow> ('w, unit) js" where
  "set_state f = (\<lambda>s. (Inr (), f s))"

text \<open>\<open>if (c) { await m }\<close>.\<close>

definition js_when :: "bool \<Rightarrow> ('w, unit) js \<Rightarrow> ('w, unit) js" where
  "js_when c m = (if c then m else js_return ())"

section \<open>Stability wait, element resolution and retry\<close>

definition waitForStability :: "'w browser \<Rightarrow> ('w, unit) js" where
  "waitForStability b =
     js_try
       (js_then (page_call ''waitForLoadState'' (loadStateOrTimeout b))
          (js_then (page_call ''evaluate'' (evaluateQuiescence b))
             (page_call ''waitForTimeout'' (waitForTimeout b 500))))
       (\<lambda>error. js_return ())"

text \<open>
  The loop of \<open>findElement\<close> over the selectors that are left, with \<open>lastError\<close>. A
  selector that fails the three calls, or whose element is hidden or disabled, is passed
  over.
\<close>

fun findElement_loop ::
  "'w browser \<Rightarrow> int \<Rightarrow> string list \<Rightarrow> thrown option \<Rightarrow> ('w, nat \<times> string) js" where
  "findElement_loop b endTime [] lastError =
     (case lastError of
        Some (Error m) \<Rightarrow> js_throw (Error m)
      | _ \<Rightarrow> js_throw (Error ''No valid selector found''))"
| "findElement_loop b endTime (sel # rest) lastError =
     (if sel = [] then findElement_loop b endTime rest lastError
      else
        js_bind
          (js_try
             (js_bind (date_now b)
                (\<lambda>now.
                   js_bind (page_call ''waitForSelector''
                              (waitForSelector b sel (max (endTime - now) 1000)))
                     (\<lambda>element.
                        js_bind (world_call (handleIsVisible b element))
                          (\<lambda>isVisible.
                             js_bind (world_call (handleIsEnabled b element))
                               (\<lambda>isEnabled.
                                  js_return (if isVisible \<and> isEnabled
                                             then Inr (element, sel)
                                             else Inl lastError))))))
             (\<lambda>error. js_return (Inl (Some error))))
          (\<lambda>found. case found of
                      Inr hit \<Rightarrow> js_return hit
                    | Inl lastError' \<Rightarrow> findElement_loop b endTime rest lastError'))"

definition findElement :: "'w browser \<Rightarrow> string list \<Rightarrow> ('w, nat \<times> string) js" where
  "findElement b selectors =
     js_bind (date_now b)
       (\<lambda>now. findElement_loop b (now + 10000) selectors None)"

definition retry_message :: "nat \<Rightarrow> nat \<Rightarrow> string" where
  "retry_message attempt maxRetries =
     ''Retrying action (attempt '' @ show_nat (attempt + 1) @ ''/'' @ show_nat maxRetries @ '')''"

text \<open>
  The \<open>for\<close> loop of \<open>executeActionWithRetry\<close> from the attempt \<open>attempt\<close> on. The
  broadcast and the pause stand in the \<open>catch\<close> block, so what they throw leaves the
  method.
\<close>

function retry_loop ::
  "'w browser \<Rightarrow> ('w, 'a) js \<Rightarrow> nat \<Rightarrow> nat \<Rightarrow> thrown option \<Rightarrow> ('w, 'a) js" where
  "retry_loop b act maxRetries attempt lastError =
     (if attempt \<le> maxRetries then
        js_bind (js_try (js_bind act (\<lambda>v. js_return (Inr v))) (\<lambda>error. js_return (Inl error)))
          (\<lambda>outcome. case outcome of
             Inr v \<Rightarrow> js_return v
           | Inl error \<Rightarrow>
               js_then
                 (js_when (attempt < maxRetries)
                    (js_bind (message_of error)
                       (\<lambda>m. js_then (broadcast (Retry (retry_message attempt maxRetries) m))
                               (page_call ''waitForTimeout''
                                  (waitForTimeout b (1000 * int attempt))))))
                 (retry_loop b act maxRetries (attempt + 1) (Some error)))
      else (case lastError of
              Some e \<Rightarrow> js_throw e
            | None \<Rightarrow> js_throw ThrownUndefined))"
  by pat_completeness auto
termination
  by (relation "measure (\<lambda>(b, act, maxRetries, attempt, lastError). Suc maxRetries - attempt)") auto

declare retry_loop.simps [simp del]

definition executeActionWithRetry :: "'w browser \<Rightarrow> ('w, 'a) js \<Rightarrow> nat \<Rightarrow> ('w, 'a) js" where
  "executeActionWithRetry b act maxRetries = retry_loop b act maxRetries 1 None"

section \<open>Action Executor\<close>

text \<open>\<open>xs.filter(Boolean)\<close> on an array of strings and missing values.\<close>

definition truthy_strings :: "string option list \<Rightarrow> string list" where
  "truthy_strings xs = List.map_filter or_null xs"

definition startsWith :: "string \<Rightarrow> string \<Rightarrow> bool" where
  "startsWith s p = (take (length p) s = p)"

text \<open>\<open>pageSnapshot.elements[i]\<close> for the result of \<open>parseInt\<close>.\<close>

definition element_at :: "page_snapshot \<Rightarrow> int option \<Rightarrow> indexed_element option" where
  "element_at snap i =
     (case i of
        None \<Rightarrow> None
      | Some n \<Rightarrow> if 0 \<le> n \<and> nat n < length (elements snap) then Some (elements snap ! nat n) else None)"

definition index_not_found :: "int option \<Rightarrow> thrown" where
  "index_not_found i = Error (''Element index '' @ show_number i @ '' not found'')"

text \<open>\<open>decision.fallbackSelectors || []\<close>.\<close>

definition fallbacks_of :: "decision \<Rightarrow> string option list" where
  "fallbacks_of d = (case fallbackSelectors d of None \<Rightarrow> [] | Some fs \<Rightarrow> map Some fs)"

subsection \<open>navigate\<close>

text \<open>
  \<open>decision.target\<close> with \<open>https://\<close> in front unless it starts with \<open>http\<close>; calling
  \<open>startsWith\<close> on a target that is not a string is a \<open>TypeError\<close>.
\<close>

definition navigate_url :: "jsval \<Rightarrow> thrown + string" where
  "navigate_url t =
     (case t of
        Str u \<Rightarrow> Inr (if startsWith u ''http'' then u else ''https://'' @ u)
      | Undefined \<Rightarrow>
          Inl (Error (''Cannot read properties of undefined (reading '' @ sq ''startsWith'' @ '')''))
      | Null \<Rightarrow>
          Inl (Error (''Cannot read properties of null (reading '' @ sq ''startsWith'' @ '')''))
      | Bool c \<Rightarrow> Inl (Error ''url.startsWith is not a function'')
      | Num n \<Rightarrow> Inl (Error ''url.startsWith is not a function'')
      | Object conversion \<Rightarrow> Inl (Error ''url.startsWith is not a function''))"

definition do_navigate :: "'w browser \<Rightarrow> decision \<Rightarrow> ('w, bool \<times> string) js" where
  "do_navigate b d =
     (case navigate_url (target d) of
        Inl e \<Rightarrow> js_throw e
      | Inr u \<Rightarrow>
          js_then (executeActionWithRetry b (page_call ''goto'' (goto b u)) 3)
            (js_then (waitForStability b)
               (js_return (True, ''await page.goto('' @ sq u @ '', { waitUntil: ''
                                  @ sq ''domcontentloaded'' @ '' });''))))"

subsection \<open>click\<close>

definition click_selectors :: "decision \<Rightarrow> indexed_element \<Rightarrow> string list" where
  "click_selectors d el =
     (case or_null (dataTestId el) of
        None \<Rightarrow> []
      | Some t \<Rightarrow> [''[data-testid=\"'' @ t @ ''\"]''])
     @ (case or_null (elem_id el) of None \<Rightarrow> [] | Some i \<Rightarrow> [''#'' @ i])
     @ truthy_strings
         ([d_selector d, selector el, fallbackSelector el, tertiarySelector el] @ fallbacks_of d)"

definition click_action :: "'w browser \<Rightarrow> string list \<Rightarrow> ('w, string) js" where
  "click_action b selectors =
     js_bind (findElement b selectors)
       (\<lambda>(element, sel).
          js_then (world_call (scrollIntoViewIfNeeded b element))
            (js_then (page_call ''waitForTimeout'' (waitForTimeout b 500))
               (js_bind (world_call (boundingBox b element))
                  (\<lambda>box. case box of
                     None \<Rightarrow> js_throw (Error ''Element not visible'')
                   | Some bx \<Rightarrow>
                       js_then
                         (js_try
                            (world_call (clickAt b element (box_width bx / 2) (box_height bx / 2)))
                            (\<lambda>clickError. page_call ''evaluate'' (evaluateClick b element)))
                         (js_return (''await page.click('' @ sq sel @ '');''))))))"

definition do_click :: "'w browser \<Rightarrow> decision \<Rightarrow> page_snapshot \<Rightarrow> ('w, bool \<times> string) js" where
  "do_click b d snap =
     js_bind (js_lift (parseInt (target d)))
       (\<lambda>elementIndex.
          case element_at snap elementIndex of
            None \<Rightarrow> js_throw (index_not_found elementIndex)
          | Some targetElement \<Rightarrow>
              js_bind
                (executeActionWithRetry b (click_action b (click_selectors d targetElement)) 3)
                (\<lambda>code. js_return (True, code)))"

subsection \<open>type\<close>

definition type_selectors :: "decision \<Rightarrow> indexed_element \<Rightarrow> string list" where
  "type_selectors d el =
     truthy_strings ([d_selector d, selector el, fallbackSelector el] @ fallbacks_of d)"

definition type_action :: "'w browser \<Rightarrow> decision \<Rightarrow> string list \<Rightarrow> ('w, string) js" where
  "type_action b d selectors =
     js_bind (findElement b selectors)
       (\<lambda>(element, sel).
          js_then (world_call (scrollIntoViewIfNeeded b element))
            (js_then (page_call ''waitForTimeout'' (waitForTimeout b 300))
               (js_then (world_call (handleClick b element))
                  (js_then (page_call ''waitForTimeout'' (waitForTimeout b 100))
                     (js_then (page_call ''keyboard'' (keyboardPress b (Str ''Control+A'')))
                        (js_then (page_call ''keyboard'' (keyboardPress b (Str ''Delete'')))
                           (js_then (world_call (handleType b element (or_empty (d_value d))))
                              (js_bind (js_lift (to_string (or_empty (d_value d))))
                                 (\<lambda>typed.
                                    js_return (''await page.fill('' @ sq sel @ '', ''
                                                 @ sq typed @ '');''))))))))))"

definition do_type :: "'w browser \<Rightarrow> decision \<Rightarrow> page_snapshot \<Rightarrow> ('w, bool \<times> string) js" where
  "do_type b d snap =
     js_bind (js_lift (parseInt (target d)))
       (\<lambda>typeElementIndex.
          case element_at snap typeElementIndex of
            None \<Rightarrow> js_throw (index_not_found typeElementIndex)
          | Some typeElement \<Rightarrow>
              js_bind
                (executeActionWithRetry b (type_action b d (type_selectors d typeElement)) 3)
                (\<lambda>code. js_return (True, code)))"

subsection \<open>clear and hover\<close>

definition short_selectors :: "decision \<Rightarrow> indexed_element \<Rightarrow> string list" where
  "short_selectors d el = truthy_strings [d_selector d, selector el, fallbackSelector el]"

definition clear_action :: "'w browser \<Rightarrow> string list \<Rightarrow> ('w, string) js" where
  "clear_action b selectors =
     js_bind (findElement b selectors)
       (\<lambda>(element, sel).
          js_then (world_call (handleFill b element []))
            (js_return (''await page.fill('' @ sq sel @ '', '' @ sq [] @ '');'')))"

text \<open>
  With no element at the index nothing runs: \<open>success\<close> stays \<open>false\<close> and
  \<open>playwrightCode\<close> stays empty.
\<close>

definition do_clear :: "'w browser \<Rightarrow> decision \<Rightarrow> page_snapshot \<Rightarrow> ('w, bool \<times> string) js" where
  "do_clear b d snap =
     js_bind (js_lift (parseInt (target d)))
       (\<lambda>clearElementIndex.
          case element_at snap clearElementIndex of
            None \<Rightarrow> js_return (False, [])
          | Some clearElement \<Rightarrow>
              js_bind
                (executeActionWithRetry b (clear_action b (short_selectors d clearElement)) 3)
                (\<lambda>code. js_return (True, code)))"

definition hover_action :: "'w browser \<Rightarrow> string list \<Rightarrow> ('w, string) js" where
  "hover_action b selectors =
     js_bind (findElement b selectors)
       (\<lambda>(element, sel).
          js_then (world_call (handleHover b element))
            (js_return (''await page.hover('' @ sq sel @ '');'')))"

definition do_hover :: "'w browser \<Rightarrow> decision \<Rightarrow> page_snapshot \<Rightarrow> ('w, bool \<times> string) js" where
  "do_hover b d snap =
     js_bind (js_lift (parseInt (target d)))
       (\<lambda>hoverElementIndex.
          case element_at snap hoverElementIndex of
            None \<Rightarrow> js_return (False, [])
          | Some hoverElement \<Rightarrow>
              js_bind
                (executeActionWithRetry b (hover_action b (short_selectors d hoverElement)) 3)
                (\<lambda>code. js_return (True, code)))"

subsection \<open>press, wait, scroll and complete\<close>

definition do_press :: "'w browser \<Rightarrow> decision \<Rightarrow> ('w, bool \<times> string) js" where
  "do_press b d =
     js_then (executeActionWithRetry b (page_call ''keyboard'' (keyboardPress b (target d))) 3)
       (js_bind (js_lift (to_string (target d)))
          (\<lambda>key. js_return (True, ''await page.keyboard.press('' @ sq key @ '');'')))"

definition do_wait :: "'w browser \<Rightarrow> decision \<Rightarrow> ('w, bool \<times> string) js" where
  "do_wait b d =
     js_bind (js_lift (parseInt (d_value d)))
       (\<lambda>parsed.
          let waitTime = number_or parsed 3000 in
          js_then (page_call ''waitForTimeout'' (waitForTimeout b waitTime))
            (js_return (True, ''await page.waitForTimeout('' @ show_int waitTime @ '');'')))"

definition do_scroll :: "'w browser \<Rightarrow> decision \<Rightarrow> ('w, bool \<times> string) js" where
  "do_scroll b d =
     js_bind (js_lift (parseInt (d_value d)))
       (\<lambda>parsed.
          let scrollAmount = number_or parsed 300 in
          js_then
            (executeActionWithRetry b (page_call ''evaluate'' (evaluateScrollBy b scrollAmount)) 3)
            (js_then (page_call ''waitForTimeout'' (waitForTimeout b 1000))
               (js_return (True, ''await page.evaluate(() => window.scrollBy(0, ''
                                  @ show_int scrollAmount @ ''));''))))"

definition do_complete :: "('w, bool \<times> string) js" where
  "do_complete =
     js_bind (get_state currentGoal)
       (\<lambda>goal. js_return (True, ''// Goal: \"'' @ (case goal of None \<Rightarrow> ''null'' | Some g \<Rightarrow> g)
                                @ ''\" completed successfully''))"


subsection \<open>executeAction\<close>

text \<open>The \<open>switch\<close>: it gives \<open>success\<close> and \<open>playwrightCode\<close>.\<close>

definition perform :: "'w browser \<Rightarrow> decision \<Rightarrow> page_snapshot \<Rightarrow> ('w, bool \<times> string) js" where
  "perform b d snap =
     (if action d = Str ''navigate'' then do_navigate b d
      else if action d = Str ''click'' then do_click b d snap
      else if action d = Str ''type'' then do_type b d snap
      else if action d = Str ''clear'' then do_clear b d snap
      else if action d = Str ''press'' then do_press b d
      else if action d = Str ''wait'' then do_wait b d
      else if action d = Str ''scroll'' then do_scroll b d
      else if action d = Str ''hover'' then do_hover b d snap
      else if action d = Str ''complete'' then do_complete
      else js_bind (js_lift (to_string (action d)))
             (\<lambda>name. js_throw (Error (''Unknown action: '' @ name))))"

text \<open>The body of the \<open>try\<close> block.\<close>

definition action_body :: "'w browser \<Rightarrow> decision \<Rightarrow> page_snapshot \<Rightarrow> ('w, bool \<times> string) js" where
  "action_body b d snap =
     js_then (js_when (truthy (waitBefore d)) (page_call ''waitForTimeout'' (waitForTimeout b 2000)))
       (js_bind (perform b d snap)
          (\<lambda>outcome.
             js_then
               (js_when (waitAfter d \<noteq> Bool False \<and> action d \<noteq> Str ''wait''
                           \<and> action d \<noteq> Str ''complete'')
                  (js_then (page_call ''waitForTimeout'' (waitForTimeout b 1500))
                     (waitForStability b)))
               (js_return outcome)))"

text \<open>
  The \<open>try\<close> with its \<open>catch\<close>: \<open>success\<close>, \<open>errorMessage\<close> and \<open>playwrightCode\<close>. The
  handler writes \<open>decision.description\<close> into a template, and what the conversion throws
  there is not caught.
\<close>

definition guarded_body ::
  "'w browser \<Rightarrow> decision \<Rightarrow> page_snapshot \<Rightarrow> ('w, bool \<times> string \<times> string) js" where
  "guarded_body b d snap =
     js_try
       (js_bind (action_body b d snap) (\<lambda>(ok, code). js_return (ok, [], code)))
       (\<lambda>error.
          js_bind (message_of error)
            (\<lambda>m. js_bind (js_lift (to_string (description d)))
                    (\<lambda>described. js_return (False, m, ''// Failed: '' @ described @ '' - '' @ m))))"

definition make_result :: "decision \<Rightarrow> bool \<times> string \<times> string \<Rightarrow> execution_result" where
  "make_result d outcome =
     (case outcome of (ok, errorMessage, code) \<Rightarrow>
        \<lparr> res_action = action d,
          res_target = target d,
          res_value = d_value d,
          res_description = description d,
          res_success = ok,
          res_error = errorMessage,
          res_reasoning = reasoning d,
          res_confidence = confidence d,
          res_playwrightCode = code \<rparr>)"

definition record_result :: "execution_result \<Rightarrow> ('w, execution_result) js" where
  "record_result result =
     js_then
       (set_state (\<lambda>s. s\<lparr> executionHistory := executionHistory s @ [result],
                         testSteps := testSteps s @ [''    '' @ res_playwrightCode result] \<rparr>))
       (js_then (js_bind (get_state stepCount) (\<lambda>step. broadcast (ActionComplete result step)))
          (js_return result))"

text \<open>
  \<open>executeAction\<close>. The first read of a field, \<open>decision.action\<close> for the
  \<open>action_start\<close> event, comes before the \<open>try\<close>: on the decision \<open>null\<close> it is a
  \<open>TypeError\<close> that nothing catches.
\<close>

definition executeAction ::
  "'w browser \<Rightarrow> decision option \<Rightarrow> page_snapshot \<Rightarrow> ('w, execution_result) js" where
  "executeAction b decision snap =
     js_bind (get_state page_initialized)
       (\<lambda>page. if \<not> page then js_throw (Error ''Page not initialized'')
               else
                 (case decision of
                    None \<Rightarrow>
                      js_throw (Error (''Cannot read properties of null (reading ''
                                        @ sq ''action'' @ '')''))
                  | Some d \<Rightarrow>
                      js_then
                        (js_bind (get_state stepCount)
                           (\<lambda>step. broadcast (ActionStart (action d) (description d) step)))
                        (js_bind (guarded_body b d snap)
                           (\<lambda>outcome. record_result (make_result d outcome)))))"

section \<open>Goal Loop\<close>

definition takeScreenshot :: "'w browser \<Rightarrow> ('w, unit) js" where
  "takeScreenshot b =
     js_bind (get_state page_initialized)
       (\<lambda>page. if \<not> page then js_throw (Error ''Page not initialized'')
               else page_call ''screenshot'' (screenshot b))"

definition getCurrentPageSnapshot :: "'w browser \<Rightarrow> ('w, page_snapshot) js" where
  "getCurrentPageSnapshot b =
     js_bind (get_state page_initialized)
       (\<lambda>page. if \<not> page then js_throw (Error ''Page not initialized'')
               else
                 js_then (waitForStability b)
                   (js_bind (page_call ''evaluate'' (evaluateSnapshot b))
                      (\<lambda>doc. js_return (page_script doc))))"

text \<open>\<open>executionHistory.slice(-5)\<close>.\<close>

definition last_five :: "'a list \<Rightarrow> 'a list" where
  "last_five xs = drop (length xs - 5) xs"

text \<open>
  The lines under \<open>HISTORY\<close> in the prompt: each of the last five results with its action
  and its description written into a template.
\<close>

definition history_line :: "nat \<Rightarrow> execution_result \<Rightarrow> thrown + string" where
  "history_line i h =
     (case to_string (res_action h) of
        Inl e \<Rightarrow> Inl e
      | Inr a \<Rightarrow>
          (case to_string (res_description h) of
             Inl e \<Rightarrow> Inl e
           | Inr described \<Rightarrow>
               Inr (show_nat (i + 1) @ ''. '' @ a @ '': '' @ described @ '' - ''
                    @ (if res_success h then ''SUCCESS'' else ''FAILED: '' @ res_error h))))"

fun history_lines :: "nat \<Rightarrow> execution_result list \<Rightarrow> thrown + string list" where
  "history_lines i [] = Inr []"
| "history_lines i (h # hs) =
     (case history_line i h of
        Inl e \<Rightarrow> Inl e
      | Inr l \<Rightarrow> (case history_lines (i + 1) hs of Inl e \<Rightarrow> Inl e | Inr ls \<Rightarrow> Inr (l # ls)))"

text \<open>
  \<open>decideNextAction\<close>. The prompt is built before the \<open>try\<close>; the oracle is given the
  goal, the snapshot and the last five results, from which the rest of the prompt is
  made, and answers with the decision that its reply parses to, \<open>None\<close> for \<open>null\<close>, or
  fails, as \<open>JSON.parse\<close> does on a reply that is not JSON.
\<close>

definition decideNextAction ::
  "'w browser \<Rightarrow> string \<Rightarrow> page_snapshot \<Rightarrow> execution_result list
     \<Rightarrow> ('w, decision option) js" where
  "decideNextAction b goal snap history =
     js_then (js_lift (history_lines 0 (last_five history)))
       (js_bind (get_state stepCount)
          (\<lambda>step.
             js_try
               (js_then (broadcast (AiThinking step))
                  (js_bind (world_call (chatCompletion b goal snap (last_five history)))
                     (\<lambda>d. js_then (broadcast (AiDecision d step)) (js_return d))))
               (\<lambda>error.
                  js_bind (message_of error)
                    (\<lambda>m. js_then (broadcast (ErrorMessage (''AI decision failed: '' @ m)))
                            (js_throw (Error (''AI analysis failed: '' @ m)))))))"

definition newline :: string where
  "newline = [CHR 0x0A]"

text \<open>The template of \<open>generateTestCode\<close>, by the test name and the script lines.\<close>

definition test_script :: "string \<Rightarrow> string list \<Rightarrow> string" where
  "test_script testName steps =
     ''const { test, expect } = require('' @ sq ''@playwright/test'' @ '');'' @ newline
     @ newline
     @ ''test('' @ sq testName @ '', async ({ page }) => {'' @ newline
     @ ''    page.setDefaultTimeout(30000);'' @ newline
     @ ''    page.setDefaultNavigationTimeout(45000);'' @ newline
     @ ''    '' @ newline
     @ join newline steps @ newline
     @ ''});''"

definition generateTestCode :: "string \<Rightarrow> ('w, string) js" where
  "generateTestCode testName =
     js_bind (get_state testSteps) (\<lambda>steps. js_return (test_script testName steps))"

text \<open>
  The part of one turn of the \<open>while\<close> loop that comes before \<open>results.push\<close>: it gives
  the decision and the result.
\<close>

definition step_actions ::
  "'w browser \<Rightarrow> string \<Rightarrow> ('w, decision option \<times> execution_result) js" where
  "step_actions b goal =
     js_then (set_state (\<lambda>s. s\<lparr>stepCount := stepCount s + 1\<rparr>))
       (js_then (js_bind (get_state stepCount) (\<lambda>step. broadcast (StepStart step goal)))
          (js_bind (takeScreenshot b)
             (\<lambda>screenshot.
                js_bind (getCurrentPageSnapshot b)
                  (\<lambda>pageSnapshot.
                     js_then
                       (js_bind (get_state stepCount)
                          (\<lambda>step. broadcast (PageSnapshot (url pageSnapshot)
                                                (length (elements pageSnapshot)) step)))
                       (js_bind
                          (js_bind (get_state executionHistory)
                             (\<lambda>history. decideNextAction b goal pageSnapshot history))
                          (\<lambda>d. js_bind (executeAction b d pageSnapshot)
                                  (\<lambda>result. js_return (d, result))))))))"

text \<open>\<open>decision.action === "complete"\<close>, where \<open>executeAction\<close> has returned.\<close>

definition is_complete :: "decision option \<Rightarrow> bool" where
  "is_complete decision = (case decision of None \<Rightarrow> False | Some d \<Rightarrow> action d = Str ''complete'')"

text \<open>
  The rest of the turn, after \<open>results.push(result)\<close>. It is not reached with the
  decision \<open>null\<close>, on which \<open>executeAction\<close> throws; reading \<open>decision.action\<close> would
  throw here too.
\<close>

definition step_finish ::
  "'w browser \<Rightarrow> decision option \<Rightarrow> execution_result \<Rightarrow> ('w, unit) js" where
  "step_finish b decision result =
     (case decision of
        None \<Rightarrow>
          js_throw (Error (''Cannot read properties of null (reading '' @ sq ''action'' @ '')''))
      | Some d \<Rightarrow>
          js_then
            (js_bind (get_state stepCount)
               (\<lambda>step.
                  if action d = Str ''complete'' then broadcast (GoalCompleted step)
                  else if \<not> res_success result
                  then broadcast (Warning (''Action failed: '' @ res_error result) step)
                  else js_return ()))
            (page_call ''waitForTimeout'' (waitForTimeout b 1000)))"

text \<open>
  One turn of the loop on the local variables \<open>results\<close> and \<open>goalCompleted\<close>: what the
  turn throws, if it throws, and the two variables as they are then.
\<close>

definition goal_step ::
  "'w browser \<Rightarrow> string \<Rightarrow> execution_result list \<Rightarrow> 'w generator
     \<Rightarrow> (thrown option \<times> execution_result list \<times> bool) \<times> 'w generator" where
  "goal_step b goal results s =
     (case step_actions b goal s of
        (Inl e, s1) \<Rightarrow> ((Some e, results, False), s1)
      | (Inr (d, result), s1) \<Rightarrow>
          (case step_finish b d result s1 of
             (Inl e, s2) \<Rightarrow> ((Some e, results @ [result], is_complete d), s2)
           | (Inr u, s2) \<Rightarrow> ((None, results @ [result], is_complete d), s2)))"

section \<open>What the methods leave alone\<close>

text \<open>
  A method is tame when it leaves \<open>page\<close>, \<open>maxSteps\<close> and \<open>stepCount\<close> of the generator
  as they are and never throws \<open>undefined\<close>. Every method below the goal loop is tame;
  the loop's termination and the executor's \<open>catch\<close> rest on it.
\<close>

definition control :: "'w generator \<Rightarrow> bool \<times> nat \<times> nat" where
  "control s = (page_initialized s, maxSteps s, stepCount s)"

definition tame :: "('w, 'a) js \<Rightarrow> bool" where
  "tame m = (\<forall>s. control (snd (m s)) = control s \<and> fst (m s) \<noteq> Inl ThrownUndefined)"

named_theorems tame_intros

lemma tameD:
  "tame m \<Longrightarrow> m s = (r, s') \<Longrightarrow> control s' = control s \<and> r \<noteq> Inl ThrownUndefined"
  by (auto simp: tame_def dest: spec [of _ s])

lemma tame_return [tame_intros]: "tame (js_return a)"
  by (simp add: tame_def js_return_def)

lemma tame_throw [tame_intros]: "tame (js_throw (Error m))"
  by (simp add: tame_def js_throw_def)

lemma tame_bind [tame_intros]:
  assumes "tame m" and "\<And>a. tame (f a)"
  shows "tame (js_bind m f)"
  unfolding tame_def
proof
  fix s
  obtain r s1 where m: "m s = (r, s1)" by (cases "m s")
  from tameD [OF assms(1) m] have 1: "control s1 = control s" "r \<noteq> Inl ThrownUndefined"
    by simp_all
  show "control (snd (js_bind m f s)) = control s \<and> fst (js_bind m f s) \<noteq> Inl ThrownUndefined"
  proof (cases r)
    case (Inl e)
    with m 1 show ?thesis by (simp add: js_bind_def)
  next
    case (Inr a)
    obtain r2 s2 where f: "f a s1 = (r2, s2)" by (cases "f a s1")
    from tameD [OF assms(2) f] 1 m Inr f show ?thesis by (simp add: js_bind_def)
  qed
qed

lemma tame_then [tame_intros]: "tame m \<Longrightarrow> tame n \<Longrightarrow> tame (js_then m n)"
  by (simp add: js_then_def tame_bind)

lemma tame_try [tame_intros]:
  assumes "tame m" and "\<And>msg. tame (h (Error msg))"
  shows "tame (js_try m h)"
  unfolding tame_def
proof
  fix s
  obtain r s1 where m: "m s = (r, s1)" by (cases "m s")
  from tameD [OF assms(1) m] have 1: "control s1 = control s" "r \<noteq> Inl ThrownUndefined"
    by simp_all
  show "control (snd (js_try m h s)) = control s \<and> fst (js_try m h s) \<noteq> Inl ThrownUndefined"
  proof (cases r)
    case (Inl e)
    with 1 obtain msg where e: "e = Error msg" by (cases e) auto
    obtain r2 s2 where h: "h (Error msg) s1 = (r2, s2)" by (cases "h (Error msg) s1")
    from tameD [OF assms(2) h] 1 m Inl e h show ?thesis by (simp add: js_try_def)
  next
    case (Inr a)
    with m 1 show ?thesis by (simp add: js_try_def)
  qed
qed

lemma tame_when [tame_intros]: "tame m \<Longrightarrow> tame (js_when c m)"
  by (simp add: js_when_def tame_return)

lemma tame_message_of [tame_intros]: "tame (message_of e)"
  by (cases e) (simp_all add: message_of_def tame_return tame_throw)

lemma tame_world_call [tame_intros]: "tame (world_call op)"
  by (auto simp: tame_def world_call_def control_def split: prod.splits sum.splits)

lemma tame_page_call [tame_intros]: "tame (page_call member op)"
  by (auto simp: tame_def page_call_def world_call_def control_def split: prod.splits sum.splits)

lemma to_string_defined: "to_string v \<noteq> Inl ThrownUndefined"
  by (auto simp: to_string_def split: jsval.splits option.splits)

lemma parseInt_defined: "parseInt v \<noteq> Inl ThrownUndefined"
  using to_string_defined [of v] by (auto simp: parseInt_def split: sum.splits)

lemma tame_lift: "r \<noteq> Inl ThrownUndefined \<Longrightarrow> tame (js_lift r)"
  by (cases r) (auto simp: js_lift_def tame_def js_return_def js_throw_def)

lemma tame_to_string [tame_intros]: "tame (js_lift (to_string v))"
  by (rule tame_lift) (rule to_string_defined)

lemma tame_parseInt [tame_intros]: "tame (js_lift (parseInt v))"
  by (rule tame_lift) (rule parseInt_defined)

lemma tame_date_now [tame_intros]: "tame (date_now b)"
  by (auto simp: tame_def date_now_def control_def split: prod.splits)

lemma tame_broadcast [tame_intros]: "tame (broadcast ev)"
  by (simp add: tame_def broadcast_def control_def)

lemma tame_get_state [tame_intros]: "tame (get_state f)"
  by (simp add: tame_def get_state_def)

lemma tame_set_state: "(\<And>s. control (f s) = control s) \<Longrightarrow> tame (set_state f)"
  by (simp add: tame_def set_state_def)

lemma tame_waitForStability [tame_intros]: "tame (waitForStability b)"
  unfolding waitForStability_def by (intro tame_intros)

lemma tame_findElement_loop [tame_intros]: "tame (findElement_loop b endTime selectors lastError)"
proof (induction selectors arbitrary: lastError)
  case Nil
  show ?case
    by (auto simp: tame_throw split: option.splits thrown.splits)
next
  case (Cons sel rest)
  show ?case
    by (auto intro!: tame_intros Cons split: sum.splits)
qed

lemma tame_findElement [tame_intros]: "tame (findElement b selectors)"
  unfolding findElement_def by (intro tame_intros)

text \<open>
  The retry loop throws \<open>lastError\<close>, which is \<open>undefined\<close> only when no attempt was
  made: with an attempt still to come, or an \<open>Error\<close> already caught, the loop is tame.
\<close>

lemma tame_retry_loop:
  "tame act \<Longrightarrow> attempt \<le> maxRetries \<or> (\<exists>m. lastError = Some (Error m))
    \<Longrightarrow> tame (retry_loop b act maxRetries attempt lastError)"
proof (induction b act maxRetries attempt lastError rule: retry_loop.induct)
  case (1 b act maxRetries attempt lastError)
  note assms = \<open>tame act\<close>
  show ?case
  proof (cases "attempt \<le> maxRetries")
    case True
    have inner: "tame (js_try (js_bind act (\<lambda>v. js_return (Inr v))) (\<lambda>error. js_return (Inl error)))"
      (is "tame ?inner")
      by (intro tame_intros assms)
    have never: "\<And>s. fst (?inner s) \<noteq> Inl e" for e
      by (auto simp: js_try_def js_bind_def js_return_def split: prod.splits sum.splits)
    show ?thesis
      unfolding tame_def
    proof
      fix s
      obtain r s1 where i: "?inner s = (r, s1)" by (cases "?inner s")
      from tameD [OF inner i] have c1: "control s1 = control s" by simp
      from never [of s] i obtain outcome where r: "r = Inr outcome" by (cases r) auto
      show "control (snd (retry_loop b act maxRetries attempt lastError s)) = control s
          \<and> fst (retry_loop b act maxRetries attempt lastError s) \<noteq> Inl ThrownUndefined"
      proof (cases outcome)
        case (Inr v)
        with True i r c1 show ?thesis
          by (subst (1 2) retry_loop.simps) (simp add: js_bind_def js_return_def)
      next
        case (Inl error)
        from tameD [OF assms, of s] i r Inl obtain msg where msg: "error = Error msg"
          by (cases error; cases "act s"; cases "fst (act s)")
            (auto simp: js_try_def js_bind_def js_return_def split: prod.splits sum.splits)
        have rest: "tame (js_then
                 (js_when (attempt < maxRetries)
                    (js_bind (message_of error)
                       (\<lambda>m. js_then (broadcast (Retry (retry_message attempt maxRetries) m))
                               (page_call ''waitForTimeout''
                                  (waitForTimeout b (1000 * int attempt))))))
                 (retry_loop b act maxRetries (attempt + 1) (Some error)))" (is "tame ?rest")
          using True msg
          by (intro tame_intros "1.IH" [OF True assms, of error]) simp
        obtain r2 s2 where k: "?rest s1 = (r2, s2)" by (cases "?rest s1")
        from tameD [OF rest k] c1 True i r Inl k show ?thesis
          by (subst (1 2) retry_loop.simps) (simp add: js_bind_def)
      qed
    qed
  next
    case False
    with "1.prems"(2) obtain m where "lastError = Some (Error m)" by auto
    with False show ?thesis
      by (subst retry_loop.simps) (simp add: tame_throw)
  qed
qed

lemma tame_executeActionWithRetry [tame_intros]:
  "tame act \<Longrightarrow> tame (executeActionWithRetry b act 3)"
  unfolding executeActionWithRetry_def by (rule tame_retry_loop) simp_all

section \<open>The loop of executeGoal\<close>

lemma tame_do_navigate [tame_intros]: "tame (do_navigate b d)"
  unfolding do_navigate_def
  by (auto intro!: tame_intros simp: navigate_url_def split: sum.splits jsval.splits)

lemma tame_click_action [tame_intros]: "tame (click_action b selectors)"
  unfolding click_action_def
  by (auto intro!: tame_intros split: prod.splits option.splits)

lemma tame_do_click [tame_intros]: "tame (do_click b d snap)"
  unfolding do_click_def
  by (auto intro!: tame_intros simp: index_not_found_def split: option.splits)

lemma tame_type_action [tame_intros]: "tame (type_action b d selectors)"
  unfolding type_action_def
  by (auto intro!: tame_intros split: prod.splits)

lemma tame_do_type [tame_intros]: "tame (do_type b d snap)"
  unfolding do_type_def
  by (auto intro!: tame_intros simp: index_not_found_def split: option.splits)

lemma tame_clear_action [tame_intros]: "tame (clear_action b selectors)"
  unfolding clear_action_def
  by (auto intro!: tame_intros split: prod.splits)

lemma tame_do_clear [tame_intros]: "tame (do_clear b d snap)"
  unfolding do_clear_def
  by (auto intro!: tame_intros split: option.splits)

lemma tame_hover_action [tame_intros]: "tame (hover_action b selectors)"
  unfolding hover_action_def
  by (auto intro!: tame_intros split: prod.splits)

lemma tame_do_hover [tame_intros]: "tame (do_hover b d snap)"
  unfolding do_hover_def
  by (auto intro!: tame_intros split: option.splits)

lemma tame_do_press [tame_intros]: "tame (do_press b d)"
  unfolding do_press_def by (intro tame_intros)

lemma tame_do_wait [tame_intros]: "tame (do_wait b d)"
  unfolding do_wait_def Let_def by (intro tame_intros)

lemma tame_do_scroll [tame_intros]: "tame (do_scroll b d)"
  unfolding do_scroll_def Let_def by (intro tame_intros)

lemma tame_do_complete [tame_intros]: "tame do_complete"
  unfolding do_complete_def by (intro tame_intros)

lemma tame_perform [tame_intros]: "tame (perform b d snap)"
  unfolding perform_def by (auto intro!: tame_intros)

lemma tame_action_body [tame_intros]: "tame (action_body b d snap)"
  unfolding action_body_def by (intro tame_intros)

lemma tame_guarded_body [tame_intros]: "tame (guarded_body b d snap)"
  unfolding guarded_body_def
  by (auto intro!: tame_intros split: prod.splits)

lemma tame_record_result [tame_intros]: "tame (record_result result)"
  unfolding record_result_def
  by (intro tame_intros tame_set_state) (simp add: control_def)

lemma tame_executeAction [tame_intros]: "tame (executeAction b decision snap)"
  unfolding executeAction_def
  by (auto intro!: tame_intros split: option.splits)

lemma tame_takeScreenshot [tame_intros]: "tame (takeScreenshot b)"
  unfolding takeScreenshot_def
  by (auto intro!: tame_intros)

lemma tame_getCurrentPageSnapshot [tame_intros]: "tame (getCurrentPageSnapshot b)"
  unfolding getCurrentPageSnapshot_def
  by (auto intro!: tame_intros)

lemma history_line_defined: "history_line i h \<noteq> Inl ThrownUndefined"
  using to_string_defined [of "res_action h"] to_string_defined [of "res_description h"]
  by (auto simp: history_line_def split: sum.splits)

lemma history_lines_defined: "history_lines i hs \<noteq> Inl ThrownUndefined"
proof (induction hs arbitrary: i)
  case Nil
  show ?case by simp
next
  case (Cons h hs)
  from history_line_defined [of i h] Cons [of "i + 1"] show ?case
    by (auto split: sum.splits)
qed

lemma tame_history_lines [tame_intros]: "tame (js_lift (history_lines i hs))"
  by (rule tame_lift) (rule history_lines_defined)

lemma tame_decideNextAction [tame_intros]: "tame (decideNextAction b goal snap history)"
  unfolding decideNextAction_def
  by (intro tame_intros)

lemma tame_generateTestCode [tame_intros]: "tame (generateTestCode testName)"
  unfolding generateTestCode_def
  by (intro tame_intros)

lemma tame_step_finish [tame_intros]: "tame (step_finish b decision result)"
  unfolding step_finish_def
  by (auto intro!: tame_intros split: option.splits)

text \<open>A turn of the loop adds one to \<open>stepCount\<close> and leaves \<open>page\<close> and \<open>maxSteps\<close>.\<close>

lemma step_actions_control:
  assumes "step_actions b goal s = (r, s1)"
  shows "control s1 = (page_initialized s, maxSteps s, Suc (stepCount s))
    \<and> r \<noteq> Inl ThrownUndefined"
proof -
  define rest where "rest =
       (js_then (js_bind (get_state stepCount) (\<lambda>step. broadcast (StepStart step goal)))
          (js_bind (takeScreenshot b)
             (\<lambda>screenshot.
                js_bind (getCurrentPageSnapshot b)
                  (\<lambda>pageSnapshot.
                     js_then
                       (js_bind (get_state stepCount)
                          (\<lambda>step. broadcast (PageSnapshot (url pageSnapshot)
                                                (length (elements pageSnapshot)) step)))
                       (js_bind
                          (js_bind (get_state executionHistory)
                             (\<lambda>history. decideNextAction b goal pageSnapshot history))
                          (\<lambda>d. js_bind (executeAction b d pageSnapshot)
                                  (\<lambda>result. js_return (d, result))))))))"
  have "tame rest"
    unfolding rest_def by (intro tame_intros)
  moreover have "rest (s\<lparr>stepCount := stepCount s + 1\<rparr>) = (r, s1)"
    using assms by (simp add: step_actions_def rest_def js_then_def js_bind_def set_state_def)
  ultimately have "control s1 = control (s\<lparr>stepCount := stepCount s + 1\<rparr>) \<and> r \<noteq> Inl ThrownUndefined"
    by (rule tameD)
  then show ?thesis by (simp add: control_def)
qed

lemma goal_step_control:
  assumes "goal_step b goal results s = (out, s')"
  shows "control s' = (page_initialized s, maxSteps s, Suc (stepCount s))"
proof -
  obtain r s1 where a: "step_actions b goal s = (r, s1)" by (cases "step_actions b goal s")
  note c1 = step_actions_control [OF a]
  show ?thesis
  proof (cases r)
    case (Inl e)
    with a assms c1 show ?thesis by (simp add: goal_step_def)
  next
    case (Inr dr)
    obtain d result where dr: "dr = (d, result)" by (cases dr)
    obtain r2 s2 where f: "step_finish b d result s1 = (r2, s2)"
      by (cases "step_finish b d result s1")
    from tameD [OF tame_step_finish f] have "control s2 = control s1" by simp
    with a assms c1 Inr dr f show ?thesis
      by (cases r2) (auto simp: goal_step_def)
  qed
qed

text \<open>
  The \<open>while\<close> loop of \<open>executeGoal\<close> on its local variables. It stops when a turn
  throws, with what was thrown.
\<close>

function goal_loop ::
  "'w browser \<Rightarrow> string \<Rightarrow> execution_result list \<Rightarrow> bool \<Rightarrow> 'w generator
     \<Rightarrow> (thrown option \<times> execution_result list \<times> bool) \<times> 'w generator" where
  "goal_loop b goal results completed s =
     (if \<not> completed \<and> stepCount s < maxSteps s then
        (case goal_step b goal results s of
           ((Some e, results', completed'), s') \<Rightarrow> ((Some e, results', completed'), s')
         | ((None, results', completed'), s') \<Rightarrow> goal_loop b goal results' completed' s')
      else ((None, results, completed), s))"
  by pat_completeness auto
termination
proof (relation "measure (\<lambda>(b, goal, results, completed, s). maxSteps s - stepCount s)")
  show "wf (measure (\<lambda>(b, goal, results, completed, s). maxSteps s - stepCount s))"
    by simp
next
  fix b :: "'w browser" and goal results completed and s :: "'w generator"
    and out s' trip results' completed' and e :: "thrown option"
  assume "\<not> completed \<and> stepCount s < maxSteps s"
    and "(out, s') = goal_step b goal results s"
  then have "control s' = (page_initialized s, maxSteps s, Suc (stepCount s))"
    and "stepCount s < maxSteps s"
    using goal_step_control [of b goal results s out s'] by simp_all
  then show "((b, goal, results', completed', s'), b, goal, results, completed, s)
      \<in> measure (\<lambda>(b, goal, results, completed, s). maxSteps s - stepCount s)"
    by (auto simp: control_def)
qed

declare goal_loop.simps [simp del]

definition make_report ::
  "bool \<Rightarrow> string option \<Rightarrow> string \<Rightarrow> execution_result list \<Rightarrow> string \<Rightarrow> nat \<Rightarrow> bool \<Rightarrow> report" where
  "make_report ok err goal results code taken completed =
     \<lparr> rep_success = ok,
       rep_error = err,
       rep_goal = goal,
       rep_steps = results,
       testCode = code,
       executionSummary =
         \<lparr> totalSteps = taken,
           successfulSteps = length (filter res_success results),
           failedSteps = length (filter (\<lambda>r. \<not> res_success r) results),
           goalCompleted = completed \<rparr> \<rparr>"

text \<open>The end of the \<open>try\<close> block, after the loop.\<close>

definition finish_goal :: "string \<Rightarrow> execution_result list \<Rightarrow> bool \<Rightarrow> ('w, report) js" where
  "finish_goal goal results completed =
     js_then
       (js_bind (get_state (\<lambda>s. (stepCount s, maxSteps s)))
          (\<lambda>(step, limit). js_when (step \<ge> limit) (broadcast (MaxStepsReached step))))
       (js_bind (generateTestCode goal)
          (\<lambda>code.
             js_bind (get_state stepCount)
               (\<lambda>taken.
                  js_then
                    (broadcast (ExecutionComplete
                       (make_report (completed \<or> list_ex res_success results) None goal results
                          code taken completed)))
                    (js_return
                       (make_report (completed \<or> list_ex res_success results) None goal results
                          code taken completed)))))"

text \<open>The \<open>catch\<close> block.\<close>

definition fail_goal :: "string \<Rightarrow> execution_result list \<Rightarrow> thrown \<Rightarrow> ('w, report) js" where
  "fail_goal goal results error =
     js_bind (message_of error)
       (\<lambda>m.
          js_bind (generateTestCode goal)
            (\<lambda>code.
               js_bind (get_state stepCount)
                 (\<lambda>taken.
                    js_then
                      (broadcast (ExecutionError m
                         (make_report False (Some m) goal results code taken False)))
                      (js_return (make_report False (Some m) goal results code taken False)))))"

definition executeGoal :: "'w browser \<Rightarrow> string \<Rightarrow> ('w, report) js" where
  "executeGoal b goal =
     js_then
       (set_state (\<lambda>s. s\<lparr> currentGoal := Some goal, executionHistory := [], testSteps := [],
                         stepCount := 0 \<rparr>))
       (js_then (broadcast (ExecutionStart goal))
          (\<lambda>s. case waitForStability b s of
                 (Inl error, s1) \<Rightarrow> fail_goal goal [] error s1
               | (Inr u, s1) \<Rightarrow>
                   (case goal_loop b goal [] False s1 of
                      ((Some error, results, completed), s2) \<Rightarrow> fail_goal goal results error s2
                    | ((None, results, completed), s2) \<Rightarrow> finish_goal goal results completed s2)))"

text \<open>The generator that the constructor makes, once \<open>initialize\<close> has set the page.\<close>

definition new_generator :: "'w \<Rightarrow> 'w generator" where
  "new_generator w =
     \<lparr> world = w, page_initialized = True, currentGoal = None, executionHistory = [],
       testSteps = [], maxSteps = 15, stepCount = 0, broadcasts = [] \<rparr>"

section \<open>Telemetry only grows\<close>

text \<open>
  A method appends when it leaves every event already broadcast in place, only adding
  events after them, and leaves the history and the script buffer as they are. Every
  method that the \<open>try\<close> block of \<open>executeAction\<close> calls appends.
\<close>

definition appends :: "('w, 'a) js \<Rightarrow> bool" where
  "appends m =
     (\<forall>s. (\<exists>evs. broadcasts (snd (m s)) = broadcasts s @ evs)
          \<and> executionHistory (snd (m s)) = executionHistory s
          \<and> testSteps (snd (m s)) = testSteps s)"

named_theorems appends_intros

lemma appendsD:
  assumes "appends m" and "m s = (r, s')"
  shows "\<exists>evs. broadcasts s' = broadcasts s @ evs"
    and "executionHistory s' = executionHistory s" and "testSteps s' = testSteps s"
proof -
  from assms(1) have "(\<exists>evs. broadcasts (snd (m s)) = broadcasts s @ evs)
      \<and> executionHistory (snd (m s)) = executionHistory s \<and> testSteps (snd (m s)) = testSteps s"
    unfolding appends_def by blast
  with assms(2) show "\<exists>evs. broadcasts s' = broadcasts s @ evs"
    and "executionHistory s' = executionHistory s" and "testSteps s' = testSteps s"
    by simp_all
qed

lemma appends_return [appends_intros]: "appends (js_return a)"
  by (simp add: appends_def js_return_def)

lemma appends_throw [appends_intros]: "appends (js_throw e)"
  by (simp add: appends_def js_throw_def)

lemma appends_bind [appends_intros]:
  assumes "appends m" and "\<And>a. appends (f a)"
  shows "appends (js_bind m f)"
  unfolding appends_def
proof
  fix s
  obtain r s1 where m: "m s = (r, s1)" by (cases "m s")
  from appendsD [OF assms(1) m] obtain evs where 1: "broadcasts s1 = broadcasts s @ evs"
    and 2: "executionHistory s1 = executionHistory s" "testSteps s1 = testSteps s"
    by blast
  show "(\<exists>evs. broadcasts (snd (js_bind m f s)) = broadcasts s @ evs)
      \<and> executionHistory (snd (js_bind m f s)) = executionHistory s
      \<and> testSteps (snd (js_bind m f s)) = testSteps s"
  proof (cases r)
    case (Inl e)
    with m 1 2 show ?thesis by (simp add: js_bind_def)
  next
    case (Inr a)
    obtain r2 s2 where f: "f a s1 = (r2, s2)" by (cases "f a s1")
    from appendsD [OF assms(2) f] obtain evs2 where "broadcasts s2 = broadcasts s1 @ evs2"
      and "executionHistory s2 = executionHistory s1" "testSteps s2 = testSteps s1"
      by blast
    with 1 2 m Inr f show ?thesis by (simp add: js_bind_def)
  qed
qed

lemma appends_then [appends_intros]: "appends m \<Longrightarrow> appends n \<Longrightarrow> appends (js_then m n)"
  by (simp add: js_then_def appends_bind)

lemma appends_try [appends_intros]:
  assumes "appends m" and "\<And>e. appends (h e)"
  shows "appends (js_try m h)"
  unfolding appends_def
proof
  fix s
  obtain r s1 where m: "m s = (r, s1)" by (cases "m s")
  from appendsD [OF assms(1) m] obtain evs where 1: "broadcasts s1 = broadcasts s @ evs"
    and 2: "executionHistory s1 = executionHistory s" "testSteps s1 = testSteps s"
    by blast
  show "(\<exists>evs. broadcasts (snd (js_try m h s)) = broadcasts s @ evs)
      \<and> executionHistory (snd (js_try m h s)) = executionHistory s
      \<and> testSteps (snd (js_try m h s)) = testSteps s"
  proof (cases r)
    case (Inl e)
    obtain r2 s2 where h: "h e s1 = (r2, s2)" by (cases "h e s1")
    from appendsD [OF assms(2) h] obtain evs2 where "broadcasts s2 = broadcasts s1 @ evs2"
      and "executionHistory s2 = executionHistory s1" "testSteps s2 = testSteps s1"
      by blast
    with 1 2 m Inl h show ?thesis by (simp add: js_try_def)
  next
    case (Inr a)
    with m 1 2 show ?thesis by (simp add: js_try_def)
  qed
qed

lemma appends_case_sum [appends_intros]:
  "(\<And>a. appends (f a)) \<Longrightarrow> (\<And>c. appends (g c))
     \<Longrightarrow> appends (case x of Inl a \<Rightarrow> f a | Inr c \<Rightarrow> g c)"
  by (cases x) simp_all

lemma appends_case_option [appends_intros]:
  "appends m \<Longrightarrow> (\<And>a. appends (f a)) \<Longrightarrow> appends (case x of None \<Rightarrow> m | Some a \<Rightarrow> f a)"
  by (cases x) simp_all

lemma appends_case_prod [appends_intros]:
  "(\<And>a c. appends (f a c)) \<Longrightarrow> appends (case x of (a, c) \<Rightarrow> f a c)"
  by (cases x) simp

lemma appends_if [appends_intros]: "appends m \<Longrightarrow> appends n \<Longrightarrow> appends (if c then m else n)"
  by simp

lemma appends_when [appends_intros]: "appends m \<Longrightarrow> appends (js_when c m)"
  by (simp add: js_when_def appends_return)

lemma appends_message_of [appends_intros]: "appends (message_of e)"
  by (cases e) (simp_all add: message_of_def appends_return appends_throw)

lemma appends_lift [appends_intros]: "appends (js_lift r)"
  by (cases r) (simp_all add: js_lift_def appends_return appends_throw)

lemma appends_world_call [appends_intros]: "appends (world_call op)"
  by (auto simp: appends_def world_call_def split: prod.splits sum.splits)

lemma appends_page_call [appends_intros]: "appends (page_call member op)"
  by (auto simp: appends_def page_call_def world_call_def split: prod.splits sum.splits)

lemma appends_date_now [appends_intros]: "appends (date_now b)"
  by (auto simp: appends_def date_now_def split: prod.splits)

lemma appends_broadcast [appends_intros]: "appends (broadcast ev)"
  by (simp add: appends_def broadcast_def)

lemma appends_get_state [appends_intros]: "appends (get_state f)"
  by (simp add: appends_def get_state_def)

lemma appends_waitForStability [appends_intros]: "appends (waitForStability b)"
  unfolding waitForStability_def by (intro appends_intros)

lemma appends_findElement_loop [appends_intros]:
  "appends (findElement_loop b endTime selectors lastError)"
proof (induction selectors arbitrary: lastError)
  case Nil
  show ?case
    by (simp add: appends_throw split: option.splits thrown.splits)
next
  case (Cons sel rest)
  show ?case
    unfolding findElement_loop.simps by (intro appends_intros Cons)
qed

lemma appends_findElement [appends_intros]: "appends (findElement b selectors)"
  unfolding findElement_def by (intro appends_intros)

lemma appends_retry_loop:
  "appends act \<Longrightarrow> appends (retry_loop b act maxRetries attempt lastError)"
proof (induction b act maxRetries attempt lastError rule: retry_loop.induct)
  case (1 b act maxRetries attempt lastError)
  show ?case
  proof (cases "attempt \<le> maxRetries")
    case True
    have "appends (js_bind (js_try (js_bind act (\<lambda>v. js_return (Inr v))) (\<lambda>error. js_return (Inl error)))
          (\<lambda>outcome. case outcome of
             Inl error \<Rightarrow>
               js_then
                 (js_when (attempt < maxRetries)
                    (js_bind (message_of error)
                       (\<lambda>m. js_then (broadcast (Retry (retry_message attempt maxRetries) m))
                               (page_call ''waitForTimeout''
                                  (waitForTimeout b (1000 * int attempt))))))
                 (retry_loop b act maxRetries (attempt + 1) (Some error))
           | Inr v \<Rightarrow> js_return v))"
      by (intro appends_intros "1.IH" [OF True] "1.prems")
    with True show ?thesis
      by (subst retry_loop.simps) (simp only: if_True)
  next
    case False
    then show ?thesis
      by (subst retry_loop.simps) (simp add: appends_throw split: option.splits)
  qed
qed

lemma appends_executeActionWithRetry [appends_intros]:
  "appends act \<Longrightarrow> appends (executeActionWithRetry b act maxRetries)"
  unfolding executeActionWithRetry_def by (rule appends_retry_loop)

lemma appends_do_navigate [appends_intros]: "appends (do_navigate b d)"
  unfolding do_navigate_def by (intro appends_intros)

lemma appends_click_action [appends_intros]: "appends (click_action b selectors)"
  unfolding click_action_def by (intro appends_intros)

lemma appends_do_click [appends_intros]: "appends (do_click b d snap)"
  unfolding do_click_def by (intro appends_intros)

lemma appends_type_action [appends_intros]: "appends (type_action b d selectors)"
  unfolding type_action_def by (intro appends_intros)

lemma appends_do_type [appends_intros]: "appends (do_type b d snap)"
  unfolding do_type_def by (intro appends_intros)

lemma appends_clear_action [appends_intros]: "appends (clear_action b selectors)"
  unfolding clear_action_def by (intro appends_intros)

lemma appends_do_clear [appends_intros]: "appends (do_clear b d snap)"
  unfolding do_clear_def by (intro appends_intros)

lemma appends_hover_action [appends_intros]: "appends (hover_action b selectors)"
  unfolding hover_action_def by (intro appends_intros)

lemma appends_do_hover [appends_intros]: "appends (do_hover b d snap)"
  unfolding do_hover_def by (intro appends_intros)

lemma appends_do_press [appends_intros]: "appends (do_press b d)"
  unfolding do_press_def by (intro appends_intros)

lemma appends_do_wait [appends_intros]: "appends (do_wait b d)"
  unfolding do_wait_def Let_def by (intro appends_intros)

lemma appends_do_scroll [appends_intros]: "appends (do_scroll b d)"
  unfolding do_scroll_def Let_def by (intro appends_intros)

lemma appends_do_complete [appends_intros]: "appends do_complete"
  unfolding do_complete_def by (intro appends_intros)

lemma appends_perform [appends_intros]: "appends (perform b d snap)"
  unfolding perform_def by (intro appends_intros)

lemma appends_action_body [appends_intros]: "appends (action_body b d snap)"
  unfolding action_body_def by (intro appends_intros)

lemma appends_guarded_body [appends_intros]: "appends (guarded_body b d snap)"
  unfolding guarded_body_def
  by (intro appends_intros)

lemma appends_takeScreenshot [appends_intros]: "appends (takeScreenshot b)"
  unfolding takeScreenshot_def by (intro appends_intros)

lemma appends_getCurrentPageSnapshot [appends_intros]: "appends (getCurrentPageSnapshot b)"
  unfolding getCurrentPageSnapshot_def by (intro appends_intros)

lemma appends_decideNextAction [appends_intros]:
  "appends (decideNextAction b goal snap history)"
  unfolding decideNextAction_def by (intro appends_intros)

section \<open>The audit fields\<close>

text \<open>
  \<open>veil_decision\<close> erases the fields \<open>reasoning\<close>, \<open>description\<close> and \<open>confidence\<close> of a
  decision, so two decisions agree on every other field when their veiled forms are
  equal. \<open>veil_result\<close> erases the three copies in a result and its script line, which
  quotes the description when the action failed; \<open>veil_event\<close> and \<open>veil\<close> do the same
  inside the telemetry, the history and the script buffer of a generator, of which they
  keep the number of lines.
\<close>

definition veil_decision :: "decision \<Rightarrow> decision" where
  "veil_decision d = d\<lparr> reasoning := Undefined, description := Undefined, confidence := Undefined \<rparr>"

definition veil_result :: "execution_result \<Rightarrow> execution_result" where
  "veil_result r =
     r\<lparr> res_description := Undefined, res_reasoning := Undefined, res_confidence := Undefined,
        res_playwrightCode := [] \<rparr>"

definition veil_report :: "report \<Rightarrow> report" where
  "veil_report rep = rep\<lparr> rep_steps := map veil_result (rep_steps rep), testCode := [] \<rparr>"

definition veil_event :: "event \<Rightarrow> event" where
  "veil_event ev =
     (case ev of
        AiDecision d n \<Rightarrow> AiDecision (map_option veil_decision d) n
      | ActionStart a desc n \<Rightarrow> ActionStart a Undefined n
      | ActionComplete r n \<Rightarrow> ActionComplete (veil_result r) n
      | ExecutionComplete rep \<Rightarrow> ExecutionComplete (veil_report rep)
      | ExecutionError m rep \<Rightarrow> ExecutionError m (veil_report rep)
      | _ \<Rightarrow> ev)"

definition veil :: "'w generator \<Rightarrow> 'w generator" where
  "veil s =
     s\<lparr> executionHistory := map veil_result (executionHistory s),
        testSteps := map (\<lambda>line. []) (testSteps s),
        broadcasts := map veil_event (broadcasts s) \<rparr>"

text \<open>A method is blind when it cannot tell two generators with the same veiled form apart.\<close>

definition blind :: "('w, 'a) js \<Rightarrow> bool" where
  "blind m = (\<forall>s t. veil s = veil t \<longrightarrow> fst (m s) = fst (m t) \<and> veil (snd (m s)) = veil (snd (m t)))"



section \<open>Runs in which no step fails\<close>

text \<open>
  \<open>steps_never_fail b\<close>: in the browser \<open>b\<close> the screenshot, the evaluation of the
  snapshot script and the pause of 1000 ms always succeed. \<open>oracle_steady b\<close>: the
  oracle always answers, with a decision that is not \<open>null\<close>, whose action is not
  \<open>complete\<close>, and whose action and description can be written as strings.
  \<open>legible\<close>: the results whose action and description can be written as strings, as
  the prompt needs them.
\<close>

definition steps_never_fail :: "'w browser \<Rightarrow> bool" where
  "steps_never_fail b =
     ((\<forall>w. \<not> isl (fst (screenshot b w)))
      \<and> (\<forall>w. \<not> isl (fst (evaluateSnapshot b w)))
      \<and> (\<forall>w. \<not> isl (fst (waitForTimeout b 1000 w))))"

definition steady :: "decision option \<Rightarrow> bool" where
  "steady decision =
     (case decision of
        None \<Rightarrow> False
      | Some d \<Rightarrow> action d \<noteq> Str ''complete'' \<and> printable (action d)
                  \<and> printable (description d))"

definition oracle_steady :: "'w browser \<Rightarrow> bool" where
  "oracle_steady b =
     (\<forall>goal snap history w.
        case fst (chatCompletion b goal snap history w) of
          Inl m \<Rightarrow> False
        | Inr decision \<Rightarrow> steady decision)"

definition legible :: "execution_result list \<Rightarrow> bool" where
  "legible history = list_all (\<lambda>h. printable (res_action h) \<and> printable (res_description h)) history"

section \<open>Example pages\<close>

text \<open>
  Concrete elements and pages on which the definitions are evaluated. The window is
  1280 by 720, as \<open>initialize\<close> sets the viewport. \<open>plain_element n t s y h\<close> is a
  visible element of tag \<open>t\<close> with text \<open>s\<close>, 100 wide and \<open>h\<close> high, whose box starts
  at the height \<open>y\<close>.
\<close>

definition desktop :: viewport where
  "desktop = \<lparr> innerWidth = 1280, innerHeight = 720 \<rparr>"

definition plain_style :: computed_style where
  "plain_style =
     \<lparr> css_cursor = ''auto'', css_display = ''block'', css_visibility = ''visible'',
       css_opacity = ''1'', css_backgroundColor = ''white'', css_color = ''black'',
       css_zIndex = ''auto'' \<rparr>"

definition plain_element :: "nat \<Rightarrow> string \<Rightarrow> string \<Rightarrow> real \<Rightarrow> real \<Rightarrow> dom_element" where
  "plain_element n t s y h =
     \<lparr> el_node = n, el_tagName = t, el_controls = [], el_className = ClassString [],
       el_attributes = Map.empty, el_textContent = s, el_name = [], el_type = [],
       el_placeholder = [], el_href = [], el_src = [], el_alt = [], el_title = [],
       el_value = [], el_checked = False, el_disabled = False, el_readOnly = False,
       el_required = False, el_parentElement = None, el_child_index = 0,
       el_rect = \<lparr> rect_x = 10, rect_y = y, rect_width = 100, rect_height = h,
                   rect_top = y, rect_bottom = y + h, rect_left = 10, rect_right = 110 \<rparr>,
       el_style = plain_style, el_offsetParent_null = False \<rparr>"



text \<open>
  A page of four elements: a paragraph, a link that reaches below the window, and two
  buttons. The interactive query returns the link and the buttons.
\<close>

definition demo_elements :: "dom_element list" where
  "demo_elements =
     [plain_element 0 ''P'' ''intro'' 300 30,
      plain_element 1 ''A'' ''more'' 700 30,
      plain_element 2 ''BUTTON'' ''send'' 100 30,
      plain_element 3 ''BUTTON'' ''stop'' 40 30]"

definition demo_page :: "dom_element list \<Rightarrow> dom_element list \<Rightarrow> document" where
  "demo_page interactive every =
     \<lparr> doc_url = ''https://example.com/'', doc_title = ''Example'',
       doc_hostname = ''example.com'', doc_readyState = ''complete'',
       doc_activeElement = Some ''BODY'', doc_window = desktop,
       interactiveElements = interactive, allElements = every,
       doc_headings = [], doc_forms = 0, doc_images = 0, doc_videos = 0,
       doc_bodyInnerText = [] \<rparr>"

definition demo_document :: document where
  "demo_document = demo_page (tl demo_elements) demo_elements"

text \<open>A page of \<open>n\<close> paragraphs with text and nothing the interactive query matches.\<close>

definition paragraphs :: "nat \<Rightarrow> document" where
  "paragraphs n = demo_page [] (map (\<lambda>k. plain_element k ''P'' ''text'' 5 1) [0..<n])"

section \<open>Example browsers\<close>

text \<open>
  A world for the examples: it counts the runs of a scripted action and keeps the
  pauses asked of \<open>waitForTimeout\<close>, in order.
\<close>

record sim =
  attempts :: nat
  pauses :: "int list"

definition sim_start :: sim where
  "sim_start = \<lparr> attempts = 0, pauses = [] \<rparr>"

text \<open>The oracle's reply in the examples: wait for 10 ms, and skip the wait after.\<close>

definition idle_decision :: decision where
  "idle_decision =
     \<lparr> action = Str ''wait'', target = Undefined, d_value = Str ''10'', d_selector = None,
       fallbackSelectors = None, waitBefore = Undefined, waitAfter = Bool False,
       scrollIntoView = Undefined, verifyVisible = Undefined, reasoning = Str ''nothing to do yet'',
       description = Str ''wait for the page'', confidence = Str ''low'' \<rparr>"

text \<open>An oracle that always answers \<open>idle_decision\<close>, so it never returns \<open>complete\<close>.\<close>

definition always_idle ::
  "string \<Rightarrow> page_snapshot \<Rightarrow> execution_result list \<Rightarrow> (sim, decision option) page_op" where
  "always_idle goal snap history = (\<lambda>w. (Inr (Some idle_decision), w))"

text \<open>
  A browser in which every call succeeds: every selector resolves to the handle 0, which
  is visible and enabled, the page is empty, and the oracle is \<open>always_idle\<close>.
\<close>

definition calm_browser :: "sim browser" where
  "calm_browser =
     \<lparr> waitForTimeout = (\<lambda>ms w. (Inr (), w\<lparr>pauses := pauses w @ [ms]\<rparr>)),
       loadStateOrTimeout = (\<lambda>w. (Inr (), w)),
       evaluateQuiescence = (\<lambda>w. (Inr (), w)),
       screenshot = (\<lambda>w. (Inr (), w)),
       evaluateSnapshot = (\<lambda>w. (Inr (demo_page [] []), w)),
       dateNow = (\<lambda>w. (0, w)),
       goto = (\<lambda>u w. (Inr (), w)),
       waitForSelector = (\<lambda>sel ms w. (Inr 0, w)),
       handleIsVisible = (\<lambda>h w. (Inr True, w)),
       handleIsEnabled = (\<lambda>h w. (Inr True, w)),
       scrollIntoViewIfNeeded = (\<lambda>h w. (Inr (), w)),
       boundingBox = (\<lambda>h w. (Inr (Some \<lparr> box_width = 100, box_height = 30 \<rparr>), w)),
       clickAt = (\<lambda>h px py w. (Inr (), w)),
       evaluateClick = (\<lambda>h w. (Inr (), w)),
       handleClick = (\<lambda>h w. (Inr (), w)),
       keyboardPress = (\<lambda>k w. (Inr (), w)),
       handleType = (\<lambda>h v w. (Inr (), w)),
       handleFill = (\<lambda>h v w. (Inr (), w)),
       handleHover = (\<lambda>h w. (Inr (), w)),
       evaluateScrollBy = (\<lambda>n w. (Inr (), w)),
       chatCompletion = always_idle \<rparr>"

text \<open>The same browser with a page that cannot be photographed.\<close>

definition broken_camera :: "sim browser" where
  "broken_camera = calm_browser \<lparr> screenshot := (\<lambda>w. (Inl ''Target closed'', w)) \<rparr>"

text \<open>
  An action whose run number \<open>k\<close> (from 0) ends as \<open>outcome k\<close> says: it rejects with
  an \<open>Error\<close> of that message or resolves to that value.
\<close>

definition scripted :: "(nat \<Rightarrow> string + 'a) \<Rightarrow> (sim, 'a) js" where
  "scripted outcome =
     (\<lambda>s. (map_sum Error id (outcome (attempts (world s))),
           s\<lparr>world := (world s)\<lparr>attempts := Suc (attempts (world s))\<rparr>\<rparr>))"

definition failure :: "string + 'a \<Rightarrow> string" where
  "failure r = (case r of Inl m \<Rightarrow> m | Inr v \<Rightarrow> [])"

text \<open>Two failures, then success.\<close>

definition third_time_lucky :: "nat \<Rightarrow> string + string" where
  "third_time_lucky k = (if k < 2 then Inl ''Timeout 30000ms exceeded'' else Inr ''done'')"

text \<open>The snapshot of the demo page, and decisions that aim at its missing element 7.\<close>

definition demo_snapshot :: page_snapshot where
  "demo_snapshot = page_script demo_document"

definition aim_at_seven :: "string \<Rightarrow> decision" where
  "aim_at_seven a =
     \<lparr> action = Str a, target = Str ''7'', d_value = Undefined, d_selector = None,
       fallbackSelectors = None, waitBefore = Undefined, waitAfter = Bool False,
       scrollIntoView = Undefined, verifyVisible = Undefined, reasoning = Str ''the field is stale'',
       description = Str ''empty the search field'', confidence = Str ''high'' \<rparr>"


text \<open>A generator with a budget of one step.\<close>

definition one_step :: "sim generator" where
  "one_step = (new_generator sim_start)\<lparr>maxSteps := 1\<rparr>"

section \<open>Properties of the sort and of the selector candidates\<close>

lemma set_insert_by: "set (insert_by cmp a bs) = insert a (set bs)"
  by (induction bs) auto

lemma length_insert_by: "length (insert_by cmp a bs) = Suc (length bs)"
  by (induction bs) auto

lemma js_sort_Nil: "js_sort cmp [] = []"
  by (simp add: js_sort_def)

lemma js_sort_Cons: "js_sort cmp (a # xs) = insert_by cmp a (js_sort cmp xs)"
  by (simp add: js_sort_def)


lemma length_js_sort: "length (js_sort cmp xs) = length xs"
  by (induction xs) (auto simp: js_sort_Nil js_sort_Cons length_insert_by)


lemma sorted_insert_by:
  assumes total: "\<And>a b. 0 < cmp a b \<Longrightarrow> cmp b a \<le> 0"
    and trans: "\<And>a b c. cmp a b \<le> 0 \<Longrightarrow> cmp b c \<le> 0 \<Longrightarrow> cmp a c \<le> 0"
  shows "sorted_wrt (\<lambda>a b. cmp a b \<le> 0) bs \<Longrightarrow> sorted_wrt (\<lambda>a b. cmp a b \<le> 0) (insert_by cmp a bs)"
proof (induction bs)
  case Nil
  then show ?case by simp
next
  case (Cons b bs)
  show ?case
  proof (cases "cmp a b \<le> 0")
    case True
    with Cons.prems show ?thesis by (auto intro: trans)
  next
    case False
    then have "cmp b a \<le> 0" using total by simp
    with False Cons show ?thesis by (auto simp: set_insert_by)
  qed
qed

lemma sorted_js_sort:
  assumes total: "\<And>a b. 0 < cmp a b \<Longrightarrow> cmp b a \<le> 0"
    and trans: "\<And>a b c. cmp a b \<le> 0 \<Longrightarrow> cmp b c \<le> 0 \<Longrightarrow> cmp a c \<le> 0"
  shows "sorted_wrt (\<lambda>a b. cmp a b \<le> 0) (js_sort cmp xs)"
proof (induction xs)
  case Nil
  show ?case by (simp add: js_sort_Nil)
next
  case (Cons a xs)
  have "sorted_wrt (\<lambda>a b. cmp a b \<le> 0) (insert_by cmp a (js_sort cmp xs))"
    using total trans Cons by (rule sorted_insert_by)
  then show ?case by (simp add: js_sort_Cons)
qed





section \<open>Properties of the snapshot script\<close>

lemma element_order_total: "0 < element_order a b \<Longrightarrow> element_order b a \<le> 0"
  by (auto simp: element_order_def split: if_splits)

lemma element_order_trans:
  "element_order a b \<le> 0 \<Longrightarrow> element_order b c \<le> 0 \<Longrightarrow> element_order a c \<le> 0"
  by (auto simp: element_order_def split: if_splits)

lemma sorted_element_order:
  "sorted_wrt (\<lambda>a b. element_order a b \<le> 0) (js_sort element_order els)"
  by (rule sorted_js_sort) (erule element_order_total, erule element_order_trans)

lemma length_assign_index: "length (assign_index els) = length els"
  by (simp add: assign_index_def)

lemma nth_assign_index:
  "i < length els \<Longrightarrow> assign_index els ! i = element_data.extend (els ! i) \<lparr> index = i \<rparr>"
  by (simp add: assign_index_def)

lemma index_assign_index: "map index (assign_index els) = [0..<length els]"
  by (rule nth_equalityI)
    (simp_all add: length_assign_index nth_assign_index element_data.defs indexed_element.defs)

text \<open>
  The fold of the generic pass, in closed form: the candidates are the descriptors of
  the visible elements with text among those not yet processed, and the pass appends
  them while the list is shorter than 100.
\<close>

lemma fold_generic_step:
  "fold (generic_step win) every (processed, els) =
     (processed,
      els @ take (100 - length els)
        (filter (\<lambda>d. length (elem_text d) > 0)
           (List.map_filter (processElement win)
              (filter (\<lambda>e. el_node e \<notin> processed) every))))"
proof (induction every arbitrary: els)
  case Nil
  show ?case by (simp add: List.map_filter_simps)
next
  case (Cons e every)
  show ?case
  proof (cases "el_node e \<in> processed \<or> length els \<ge> 100")
    case True
    then have "generic_step win e (processed, els) = (processed, els)"
      by (simp add: generic_step_def)
    with True Cons [of els] show ?thesis
      by (auto simp: List.map_filter_simps)
  next
    case False
    show ?thesis
    proof (cases "processElement win e")
      case None
      with False Cons [of els] show ?thesis
        by (simp add: generic_step_def List.map_filter_simps)
    next
      case (Some d)
      show ?thesis
      proof (cases "length (elem_text d) > 0")
        case True
        with False Some have "generic_step win e (processed, els) = (processed, els @ [d])"
          by (simp add: generic_step_def)
        moreover from False have "100 - length els = Suc (100 - length (els @ [d]))"
          by auto
        ultimately show ?thesis
          using False Some True Cons [of "els @ [d]"]
          by (simp add: List.map_filter_simps del: length_append)
      next
        case empty: False
        with False Some Cons [of els] show ?thesis
          by (simp add: generic_step_def List.map_filter_simps)
      qed
    qed
  qed
qed

lemma length_map_filter_all:
  "\<forall>a\<in>set xs. \<exists>d. f a = Some d \<and> P d \<Longrightarrow> length (filter P (List.map_filter f xs)) = length xs"
  by (induction xs) (auto simp: List.map_filter_simps)

lemma processElement_paragraph:
  "\<exists>d. processElement desktop (plain_element k ''P'' ''text'' 5 1) = Some d \<and> length (elem_text d) > 0"
  by (simp add: processElement_def isVisible_def plain_element_def desktop_def plain_style_def
      Let_def trim_def is_space_def)

lemma scanned_paragraphs: "length (scanned_elements (paragraphs n)) = min 100 n"
proof -
  have "length (filter (\<lambda>d. length (elem_text d) > 0)
           (List.map_filter (processElement desktop)
              (map (\<lambda>k. plain_element k ''P'' ''text'' 5 1) [0..<n]))) = n"
    using length_map_filter_all [of "map (\<lambda>k. plain_element k ''P'' ''text'' 5 1) [0..<n]"
        "processElement desktop" "\<lambda>d. length (elem_text d) > 0"] processElement_paragraph
    by auto
  then show ?thesis
    by (simp add: scanned_elements_def paragraphs_def demo_page_def fold_generic_step)
qed

section \<open>Properties of the executor\<close>

text \<open>One turn of the retry loop, by the outcome of the attempt.\<close>

lemma retry_loop_success:
  "attempt \<le> maxRetries \<Longrightarrow> act s = (Inr v, s1)
     \<Longrightarrow> retry_loop b act maxRetries attempt lastError s = (Inr v, s1)"
  by (subst retry_loop.simps) (simp add: js_bind_def js_try_def js_return_def)

lemma retry_loop_exhausted:
  "maxRetries < attempt \<Longrightarrow> retry_loop b act maxRetries attempt (Some e) = js_throw e"
  by (subst retry_loop.simps) simp

lemma retry_loop_last_failure:
  "act s = (Inl e, s1)
     \<Longrightarrow> retry_loop b act maxRetries maxRetries lastError s = (Inl e, s1)"
  by (subst retry_loop.simps)
    (simp add: js_bind_def js_try_def js_return_def js_then_def js_when_def js_throw_def
      retry_loop_exhausted)

lemma retry_loop_failure:
  "attempt < maxRetries \<Longrightarrow> act s = (Inl (Error m), s1) \<Longrightarrow> page_initialized s1
     \<Longrightarrow> waitForTimeout b (1000 * int attempt) (world s1) = (Inr (), w)
     \<Longrightarrow> retry_loop b act maxRetries attempt lastError s
         = retry_loop b act maxRetries (attempt + 1) (Some (Error m))
             (s1\<lparr> broadcasts := broadcasts s1 @ [Retry (retry_message attempt maxRetries) m],
                  world := w \<rparr>)"
  by (subst retry_loop.simps)
    (simp add: js_bind_def js_try_def js_return_def js_then_def js_when_def message_of_def
      broadcast_def page_call_def world_call_def)

text \<open>
  The \<open>catch\<close> takes every \<open>Error\<close> of the body, and throws itself when the
  description cannot be written into the failed script line.
\<close>

lemma guarded_body_cases:
  obtains (failed) m s' where "action_body b d snap s = (Inl (Error m), s')"
      and "guarded_body b d snap s
           = (case to_string (description d) of
                Inl e \<Rightarrow> (Inl e, s')
              | Inr described \<Rightarrow>
                  (Inr (False, m, ''// Failed: '' @ described @ '' - '' @ m), s'))"
    | (finished) ok code s' where "action_body b d snap s = (Inr (ok, code), s')"
      and "guarded_body b d snap s = (Inr (ok, [], code), s')"
proof -
  obtain r s' where body: "action_body b d snap s = (r, s')"
    by (cases "action_body b d snap s")
  from tameD [OF tame_action_body body] have nu: "r \<noteq> Inl ThrownUndefined" by simp
  show ?thesis
  proof (cases r)
    case (Inl e)
    with nu obtain m where "e = Error m" by (cases e) auto
    with Inl body show ?thesis
      by (intro failed [of m s'])
        (simp_all add: guarded_body_def js_try_def js_bind_def message_of_def js_return_def
          js_lift_def js_throw_def split: sum.splits)
  next
    case (Inr oc)
    obtain ok code where "oc = (ok, code)" by (cases oc)
    with Inr body show ?thesis
      by (intro finished [of ok code s'])
        (simp_all add: guarded_body_def js_try_def js_bind_def js_return_def)
  qed
qed

lemma guarded_body_printable:
  assumes "printable (description d)"
  obtains (failed) m code s' where "action_body b d snap s = (Inl (Error m), s')"
      and "guarded_body b d snap s = (Inr (False, m, code), s')"
    | (finished) ok code s' where "action_body b d snap s = (Inr (ok, code), s')"
      and "guarded_body b d snap s = (Inr (ok, [], code), s')"
proof -
  from assms obtain described where "to_string (description d) = Inr described"
    by (auto simp: printable_def split: sum.splits)
  then show ?thesis
    by (cases rule: guarded_body_cases [of b d snap s]) (auto intro: failed finished)
qed
















lemma executeAction_null:
  "page_initialized s
     \<Longrightarrow> executeAction b None snap s
         = (Inl (Error (''Cannot read properties of null (reading '' @ sq ''action'' @ '')'')), s)"
  by (simp add: executeAction_def js_bind_def get_state_def js_throw_def)

lemma executeAction_throw:
  assumes "page_initialized s"
    and "guarded_body b d snap
           (s\<lparr>broadcasts := broadcasts s @ [ActionStart (action d) (description d) (stepCount s)]\<rparr>)
         = (Inl e, s1)"
  shows "executeAction b (Some d) snap s = (Inl e, s1)"
  using assms
  by (simp add: executeAction_def js_bind_def js_then_def get_state_def broadcast_def)

lemma executeAction_unfold:
  assumes "page_initialized s"
    and "guarded_body b d snap
           (s\<lparr>broadcasts := broadcasts s @ [ActionStart (action d) (description d) (stepCount s)]\<rparr>)
         = (Inr outcome, s1)"
  shows "executeAction b (Some d) snap s
     = (Inr (make_result d outcome),
        s1\<lparr> executionHistory := executionHistory s1 @ [make_result d outcome],
            testSteps := testSteps s1 @ [''    '' @ res_playwrightCode (make_result d outcome)],
            broadcasts := broadcasts s1 @ [ActionComplete (make_result d outcome) (stepCount s1)] \<rparr>)"
  using assms
  by (simp add: executeAction_def js_bind_def js_then_def get_state_def set_state_def
      js_throw_def broadcast_def record_result_def js_return_def)

text \<open>The same turns for a scripted action in the calm browser.\<close>

lemma scripted_retry:
  assumes "isl (outcome (attempts (world s)))" and "attempt < 3" and "page_initialized s"
  shows "retry_loop calm_browser (scripted outcome) 3 attempt lastError s
     = retry_loop calm_browser (scripted outcome) 3 (Suc attempt)
         (Some (Error (failure (outcome (attempts (world s))))))
         (s\<lparr> broadcasts := broadcasts s
                @ [Retry (retry_message attempt 3) (failure (outcome (attempts (world s))))],
              world := \<lparr> attempts = Suc (attempts (world s)),
                          pauses = pauses (world s) @ [1000 * int attempt] \<rparr> \<rparr>)"
proof -
  from assms(1) obtain m where m: "outcome (attempts (world s)) = Inl m"
    by (cases "outcome (attempts (world s))") auto
  have "retry_loop calm_browser (scripted outcome) 3 attempt lastError s
      = retry_loop calm_browser (scripted outcome) 3 (attempt + 1) (Some (Error m))
          ((s\<lparr>world := (world s)\<lparr>attempts := Suc (attempts (world s))\<rparr>\<rparr>)
             \<lparr> broadcasts := broadcasts (s\<lparr>world := (world s)\<lparr>attempts := Suc (attempts (world s))\<rparr>\<rparr>)
                  @ [Retry (retry_message attempt 3) m],
               world := \<lparr> attempts = Suc (attempts (world s)),
                          pauses = pauses (world s) @ [1000 * int attempt] \<rparr> \<rparr>)"
    using assms(2,3) m
    by (intro retry_loop_failure) (simp_all add: scripted_def calm_browser_def)
  then show ?thesis
    using m by (simp add: failure_def)
qed

lemma scripted_done:
  assumes "\<not> isl (outcome (attempts (world s)))" and "attempt \<le> 3"
  shows "retry_loop calm_browser (scripted outcome) 3 attempt lastError s
     = (map_sum Error id (outcome (attempts (world s))),
        s\<lparr>world := (world s)\<lparr>attempts := Suc (attempts (world s))\<rparr>\<rparr>)"
proof -
  from assms(1) obtain v where v: "outcome (attempts (world s)) = Inr v"
    by (cases "outcome (attempts (world s))") auto
  have "retry_loop calm_browser (scripted outcome) 3 attempt lastError s
      = (Inr v, s\<lparr>world := (world s)\<lparr>attempts := Suc (attempts (world s))\<rparr>\<rparr>)"
    using assms(2) v by (intro retry_loop_success) (simp_all add: scripted_def)
  then show ?thesis
    using v by simp
qed

lemma scripted_last:
  assumes "attempt = 3"
  shows "retry_loop calm_browser (scripted outcome) 3 attempt lastError s
     = (map_sum Error id (outcome (attempts (world s))),
        s\<lparr>world := (world s)\<lparr>attempts := Suc (attempts (world s))\<rparr>\<rparr>)"
proof (cases "outcome (attempts (world s))")
  case (Inl m)
  have "retry_loop calm_browser (scripted outcome) 3 3 lastError s
      = (Inl (Error m), s\<lparr>world := (world s)\<lparr>attempts := Suc (attempts (world s))\<rparr>\<rparr>)"
    using Inl by (intro retry_loop_last_failure) (simp add: scripted_def)
  with Inl assms show ?thesis by simp
next
  case (Inr v)
  then have "\<not> isl (outcome (attempts (world s)))" by simp
  from scripted_done [where s = s and outcome = outcome and attempt = 3 and lastError = lastError]
    this assms
  show ?thesis by simp
qed

section \<open>What a run of executeAction leaves\<close>



section \<open>Blind methods\<close>

named_theorems blind_intros

lemma veil_eq_iff:
  "veil s = veil t \<longleftrightarrow>
     world s = world t \<and> page_initialized s = page_initialized t \<and> currentGoal s = currentGoal t
     \<and> map veil_result (executionHistory s) = map veil_result (executionHistory t)
     \<and> length (testSteps s) = length (testSteps t)
     \<and> maxSteps s = maxSteps t \<and> stepCount s = stepCount t
     \<and> map veil_event (broadcasts s) = map veil_event (broadcasts t)"
proof -
  have len: "map (\<lambda>line. []) xs = map (\<lambda>line. []) ys \<longleftrightarrow> length xs = length ys"
    for xs ys :: "string list"
    by (simp add: map_replicate_const)
  show ?thesis
    by (cases s; cases t) (simp add: veil_def len)
qed

lemma blindD:
  assumes "blind m" and "veil s = veil t" and "m s = (r, s')" and "m t = (q, t')"
  shows "r = q \<and> veil s' = veil t'"
proof -
  from assms(1,2) have "fst (m s) = fst (m t) \<and> veil (snd (m s)) = veil (snd (m t))"
    unfolding blind_def by blast
  with assms(3,4) show ?thesis by simp
qed

lemma blind_return [blind_intros]: "blind (js_return a)"
  by (simp add: blind_def js_return_def)

lemma blind_throw [blind_intros]: "blind (js_throw e)"
  by (simp add: blind_def js_throw_def)

lemma blind_bind [blind_intros]:
  assumes "blind m" and "\<And>a. blind (f a)"
  shows "blind (js_bind m f)"
  unfolding blind_def
proof (intro allI impI)
  fix s t :: "'a generator"
  assume v: "veil s = veil t"
  obtain r s1 where ms: "m s = (r, s1)" by (cases "m s")
  obtain q t1 where mt: "m t = (q, t1)" by (cases "m t")
  from blindD [OF assms(1) v ms mt] have 1: "r = q" "veil s1 = veil t1" by simp_all
  show "fst (js_bind m f s) = fst (js_bind m f t) \<and> veil (snd (js_bind m f s)) = veil (snd (js_bind m f t))"
  proof (cases r)
    case (Inl e)
    with ms mt 1 show ?thesis by (auto simp: js_bind_def)
  next
    case (Inr a)
    obtain r2 s2 where fs: "f a s1 = (r2, s2)" by (cases "f a s1")
    obtain q2 t2 where ft: "f a t1 = (q2, t2)" by (cases "f a t1")
    from blindD [OF assms(2) 1(2) fs ft] ms mt 1 Inr fs ft show ?thesis
      by (auto simp: js_bind_def)
  qed
qed

lemma blind_then [blind_intros]: "blind m \<Longrightarrow> blind n \<Longrightarrow> blind (js_then m n)"
  by (simp add: js_then_def blind_bind)

lemma blind_try [blind_intros]:
  assumes "blind m" and "\<And>e. blind (h e)"
  shows "blind (js_try m h)"
  unfolding blind_def
proof (intro allI impI)
  fix s t :: "'a generator"
  assume v: "veil s = veil t"
  obtain r s1 where ms: "m s = (r, s1)" by (cases "m s")
  obtain q t1 where mt: "m t = (q, t1)" by (cases "m t")
  from blindD [OF assms(1) v ms mt] have 1: "r = q" "veil s1 = veil t1" by simp_all
  show "fst (js_try m h s) = fst (js_try m h t) \<and> veil (snd (js_try m h s)) = veil (snd (js_try m h t))"
  proof (cases r)
    case (Inl e)
    obtain r2 s2 where hs: "h e s1 = (r2, s2)" by (cases "h e s1")
    obtain q2 t2 where ht: "h e t1 = (q2, t2)" by (cases "h e t1")
    from blindD [OF assms(2) 1(2) hs ht] ms mt 1 Inl hs ht show ?thesis
      by (auto simp: js_try_def)
  next
    case (Inr a)
    with ms mt 1 show ?thesis by (auto simp: js_try_def)
  qed
qed

lemma blind_case_sum [blind_intros]:
  "(\<And>a. blind (f a)) \<Longrightarrow> (\<And>c. blind (g c)) \<Longrightarrow> blind (case x of Inl a \<Rightarrow> f a | Inr c \<Rightarrow> g c)"
  by (cases x) simp_all

lemma blind_case_option [blind_intros]:
  "blind m \<Longrightarrow> (\<And>a. blind (f a)) \<Longrightarrow> blind (case x of None \<Rightarrow> m | Some a \<Rightarrow> f a)"
  by (cases x) simp_all

lemma blind_case_prod [blind_intros]:
  "(\<And>a c. blind (f a c)) \<Longrightarrow> blind (case x of (a, c) \<Rightarrow> f a c)"
  by (cases x) simp

lemma blind_if [blind_intros]: "blind m \<Longrightarrow> blind n \<Longrightarrow> blind (if c then m else n)"
  by simp

lemma blind_when [blind_intros]: "blind m \<Longrightarrow> blind (js_when c m)"
  by (simp add: js_when_def blind_return)

lemma blind_message_of [blind_intros]: "blind (message_of e)"
  by (cases e) (simp_all add: message_of_def blind_return blind_throw)

lemma veil_world: "veil (s\<lparr>world := w\<rparr>) = (veil s)\<lparr>world := w\<rparr>"
  by (simp add: veil_def)

lemma veil_broadcasts:
  "veil (s\<lparr>broadcasts := broadcasts s @ [ev]\<rparr>)
     = (veil s)\<lparr>broadcasts := broadcasts (veil s) @ [veil_event ev]\<rparr>"
  by (simp add: veil_def)

lemma veil_same:
  assumes "veil s = veil t"
  shows "world s = world t" and "page_initialized s = page_initialized t"
    and "currentGoal s = currentGoal t" and "stepCount s = stepCount t"
  using assms unfolding veil_eq_iff by blast+

lemma blind_world_call [blind_intros]: "blind (world_call op)"
  unfolding blind_def
proof (intro allI impI)
  fix s t :: "'a generator"
  assume v: "veil s = veil t"
  note same = veil_same [OF v]
  obtain r w where op: "op (world t) = (r, w)" by (cases "op (world t)")
  with same v show "fst (world_call op s) = fst (world_call op t)
      \<and> veil (snd (world_call op s)) = veil (snd (world_call op t))"
    by (cases r) (simp_all add: world_call_def veil_world)
qed

lemma blind_page_call [blind_intros]: "blind (page_call member op)"
  unfolding blind_def
proof (intro allI impI)
  fix s t :: "'a generator"
  assume v: "veil s = veil t"
  note same = veil_same [OF v]
  show "fst (page_call member op s) = fst (page_call member op t)
      \<and> veil (snd (page_call member op s)) = veil (snd (page_call member op t))"
  proof (cases "page_initialized t")
    case False
    with same v show ?thesis by (simp add: page_call_def)
  next
    case True
    from blind_world_call [of op] v
    have "fst (world_call op s) = fst (world_call op t)
      \<and> veil (snd (world_call op s)) = veil (snd (world_call op t))"
      unfolding blind_def by blast
    with True same show ?thesis by (simp add: page_call_def)
  qed
qed

lemma blind_lift [blind_intros]: "blind (js_lift r)"
  by (cases r) (simp_all add: js_lift_def blind_return blind_throw)

lemma blind_date_now [blind_intros]: "blind (date_now b)"
  unfolding blind_def
proof (intro allI impI)
  fix s t :: "'a generator"
  assume v: "veil s = veil t"
  note same = veil_same [OF v]
  obtain now w where op: "dateNow b (world t) = (now, w)" by (cases "dateNow b (world t)")
  with same v show "fst (date_now b s) = fst (date_now b t)
      \<and> veil (snd (date_now b s)) = veil (snd (date_now b t))"
    by (simp add: date_now_def veil_world)
qed

lemma blind_broadcast [blind_intros]: "blind (broadcast ev)"
  by (simp add: blind_def broadcast_def veil_broadcasts)

lemma blind_get_state:
  assumes "\<And>s t. veil s = veil t \<Longrightarrow> f s = f t"
  shows "blind (get_state f)"
  unfolding blind_def get_state_def
proof (intro allI impI)
  fix s t :: "'a generator"
  assume v: "veil s = veil t"
  then have "f s = f t" by (rule assms)
  with v show "fst (Inr (f s), s) = fst (Inr (f t), t) \<and> veil (snd (Inr (f s), s)) = veil (snd (Inr (f t), t))"
    by simp
qed

lemma blind_get_currentGoal [blind_intros]: "blind (get_state currentGoal)"
  by (rule blind_get_state) (rule veil_same)

lemma blind_waitForStability [blind_intros]: "blind (waitForStability b)"
  unfolding waitForStability_def by (intro blind_intros)

lemma blind_findElement_loop [blind_intros]: "blind (findElement_loop b endTime selectors lastError)"
proof (induction selectors arbitrary: lastError)
  case Nil
  show ?case
    by (simp add: blind_throw split: option.splits thrown.splits)
next
  case (Cons sel rest)
  show ?case
    unfolding findElement_loop.simps by (intro blind_intros Cons)
qed

lemma blind_findElement [blind_intros]: "blind (findElement b selectors)"
  unfolding findElement_def by (intro blind_intros)

lemma blind_retry_loop:
  "blind act \<Longrightarrow> blind (retry_loop b act maxRetries attempt lastError)"
proof (induction b act maxRetries attempt lastError rule: retry_loop.induct)
  case (1 b act maxRetries attempt lastError)
  show ?case
  proof (cases "attempt \<le> maxRetries")
    case True
    have "blind (js_bind (js_try (js_bind act (\<lambda>v. js_return (Inr v))) (\<lambda>error. js_return (Inl error)))
          (\<lambda>outcome. case outcome of
             Inl error \<Rightarrow>
               js_then
                 (js_when (attempt < maxRetries)
                    (js_bind (message_of error)
                       (\<lambda>m. js_then (broadcast (Retry (retry_message attempt maxRetries) m))
                               (page_call ''waitForTimeout''
                                  (waitForTimeout b (1000 * int attempt))))))
                 (retry_loop b act maxRetries (attempt + 1) (Some error))
           | Inr v \<Rightarrow> js_return v))"
      by (intro blind_intros "1.IH" [OF True] "1.prems")
    with True show ?thesis
      by (subst retry_loop.simps) (simp only: if_True)
  next
    case False
    then show ?thesis
      by (subst retry_loop.simps) (simp add: blind_throw split: option.splits)
  qed
qed

lemma blind_executeActionWithRetry [blind_intros]:
  "blind act \<Longrightarrow> blind (executeActionWithRetry b act maxRetries)"
  unfolding executeActionWithRetry_def by (rule blind_retry_loop)

lemma blind_do_navigate [blind_intros]: "blind (do_navigate b d)"
  unfolding do_navigate_def by (intro blind_intros)

lemma blind_click_action [blind_intros]: "blind (click_action b selectors)"
  unfolding click_action_def by (intro blind_intros)

lemma blind_do_click [blind_intros]: "blind (do_click b d snap)"
  unfolding do_click_def by (intro blind_intros)

lemma blind_type_action [blind_intros]: "blind (type_action b d selectors)"
  unfolding type_action_def by (intro blind_intros)

lemma blind_do_type [blind_intros]: "blind (do_type b d snap)"
  unfolding do_type_def by (intro blind_intros)

lemma blind_clear_action [blind_intros]: "blind (clear_action b selectors)"
  unfolding clear_action_def by (intro blind_intros)

lemma blind_do_clear [blind_intros]: "blind (do_clear b d snap)"
  unfolding do_clear_def by (intro blind_intros)

lemma blind_hover_action [blind_intros]: "blind (hover_action b selectors)"
  unfolding hover_action_def by (intro blind_intros)

lemma blind_do_hover [blind_intros]: "blind (do_hover b d snap)"
  unfolding do_hover_def by (intro blind_intros)

lemma blind_do_press [blind_intros]: "blind (do_press b d)"
  unfolding do_press_def by (intro blind_intros)

lemma blind_do_wait [blind_intros]: "blind (do_wait b d)"
  unfolding do_wait_def Let_def by (intro blind_intros)

lemma blind_do_scroll [blind_intros]: "blind (do_scroll b d)"
  unfolding do_scroll_def Let_def by (intro blind_intros)

lemma blind_do_complete [blind_intros]: "blind do_complete"
  unfolding do_complete_def by (intro blind_intros)

lemma blind_perform [blind_intros]: "blind (perform b d snap)"
  unfolding perform_def by (intro blind_intros)








section \<open>Properties of the goal loop\<close>

lemma tame_keeps:
  assumes "tame m" and "m s = (r, s')"
  shows "page_initialized s' = page_initialized s" and "maxSteps s' = maxSteps s"
    and "stepCount s' = stepCount s"
  using tameD [OF assms] by (simp_all add: control_def)

lemma page_call_ok:
  assumes "page_initialized s" and "\<not> isl (fst (op (world s)))"
  shows "\<exists>a s'. page_call member op s = (Inr a, s') \<and> page_initialized s'
     \<and> executionHistory s' = executionHistory s"
proof -
  obtain r w where op: "op (world s) = (r, w)" by (cases "op (world s)")
  with assms(2) obtain a where "r = Inr a" by (cases r) auto
  with op assms(1) show ?thesis by (simp add: page_call_def world_call_def)
qed

lemma waitForStability_ok:
  "\<exists>s'. waitForStability b s = (Inr (), s') \<and> page_initialized s' = page_initialized s
     \<and> executionHistory s' = executionHistory s"
proof -
  obtain r s' where w: "waitForStability b s = (r, s')" by (cases "waitForStability b s")
  have "r = Inr ()"
    using w
    by (auto simp: waitForStability_def js_try_def js_return_def split: prod.splits sum.splits)
  with w tame_keeps(1) [OF tame_waitForStability w] appendsD(2) [OF appends_waitForStability w]
  show ?thesis by simp
qed

lemma takeScreenshot_ok:
  assumes "page_initialized s" and "steps_never_fail b"
  shows "\<exists>a s'. takeScreenshot b s = (Inr a, s') \<and> page_initialized s'
     \<and> executionHistory s' = executionHistory s"
proof -
  from assms(2) have "\<not> isl (fst (screenshot b (world s)))"
    by (simp add: steps_never_fail_def)
  from page_call_ok [where op = "screenshot b" and member = "''screenshot''", OF assms(1) this] assms(1) show ?thesis
    by (simp add: takeScreenshot_def js_bind_def get_state_def)
qed

lemma getCurrentPageSnapshot_ok:
  assumes "page_initialized s" and "steps_never_fail b"
  shows "\<exists>snap s'. getCurrentPageSnapshot b s = (Inr snap, s') \<and> page_initialized s'
     \<and> executionHistory s' = executionHistory s"
proof -
  obtain s1 where w: "waitForStability b s = (Inr (), s1)" and p1: "page_initialized s1"
    and h1: "executionHistory s1 = executionHistory s"
    using waitForStability_ok [of b s] assms(1) by auto
  from assms(2) have "\<not> isl (fst (evaluateSnapshot b (world s1)))"
    by (simp add: steps_never_fail_def)
  from page_call_ok [where op = "evaluateSnapshot b" and member = "''evaluate''", OF p1 this] obtain doc s2
    where e: "page_call ''evaluate'' (evaluateSnapshot b) s1 = (Inr doc, s2)"
      and p2: "page_initialized s2" and h2: "executionHistory s2 = executionHistory s1"
    by auto
  from assms(1) w e p2 h1 h2 show ?thesis
    by (simp add: getCurrentPageSnapshot_def js_bind_def js_then_def get_state_def js_return_def)
qed

lemma history_line_ok:
  assumes "printable (res_action h)" and "printable (res_description h)"
  shows "\<exists>l. history_line i h = Inr l"
  using assms by (auto simp: printable_def history_line_def split: sum.splits)

lemma history_lines_ok: "legible hs \<Longrightarrow> \<exists>ls. history_lines i hs = Inr ls"
proof (induction hs arbitrary: i)
  case Nil
  show ?case by simp
next
  case (Cons h hs)
  from Cons.prems have "printable (res_action h)" "printable (res_description h)" "legible hs"
    by (simp_all add: legible_def)
  from history_line_ok [OF this(1,2), of i] Cons.IH [OF this(3), of "i + 1"]
  show ?case by auto
qed

lemma legible_last_five: "legible hs \<Longrightarrow> legible (last_five hs)"
  unfolding legible_def last_five_def list_all_iff
  by (auto dest: in_set_dropD)

lemma decideNextAction_ok:
  assumes "oracle_steady b" and "legible history"
  shows "\<exists>d s'. decideNextAction b goal snap history s = (Inr (Some d), s')
     \<and> steady (Some d) \<and> page_initialized s' = page_initialized s
     \<and> executionHistory s' = executionHistory s"
proof -
  from history_lines_ok [OF legible_last_five [OF assms(2)], of 0] obtain ls
    where ls: "history_lines 0 (last_five history) = Inr ls" ..
  define s1 where "s1 = s\<lparr>broadcasts := broadcasts s @ [AiThinking (stepCount s)]\<rparr>"
  obtain r w where c: "chatCompletion b goal snap (last_five history) (world s1) = (r, w)"
    by (cases "chatCompletion b goal snap (last_five history) (world s1)")
  from assms(1) have "case fst (chatCompletion b goal snap (last_five history) (world s1)) of
      Inl m \<Rightarrow> False | Inr decision \<Rightarrow> steady decision"
    unfolding oracle_steady_def by blast
  with c obtain decision where r: "r = Inr decision" and st: "steady decision"
    by (cases r) auto
  from st obtain d where d: "decision = Some d"
    by (cases decision) (auto simp: steady_def)
  from c r d st ls show ?thesis
    by (simp add: decideNextAction_def js_bind_def js_then_def js_try_def get_state_def
        broadcast_def world_call_def js_return_def js_lift_def s1_def)
qed

lemma executeAction_ok:
  assumes "page_initialized s" and "printable (description d)"
  shows "\<exists>result s'. executeAction b (Some d) snap s = (Inr result, s')
     \<and> page_initialized s'
     \<and> executionHistory s' = executionHistory s @ [result]
     \<and> res_action result = action d \<and> res_description result = description d"
proof -
  define s0 where
    "s0 = s\<lparr>broadcasts := broadcasts s @ [ActionStart (action d) (description d) (stepCount s)]\<rparr>"
  obtain outcome s1 where g: "guarded_body b d snap s0 = (Inr outcome, s1)"
    using assms(2) by (cases rule: guarded_body_printable [of d b snap s0]) auto
  from appendsD(2) [OF appends_guarded_body g]
  have history: "executionHistory s1 = executionHistory s"
    by (simp add: s0_def)
  from tame_keeps(1) [OF tame_guarded_body g] assms(1) have page: "page_initialized s1"
    by (simp add: s0_def)
  have fields: "res_action (make_result d outcome) = action d"
    "res_description (make_result d outcome) = description d"
    by (cases outcome; simp add: make_result_def)+
  from executeAction_unfold [OF assms(1) g [unfolded s0_def]] history page fields
  show ?thesis by simp
qed

text \<open>A turn of the loop in which nothing fails: one more result, and the goal not completed.\<close>

lemma goal_step_ok:
  assumes "page_initialized s" and "legible (executionHistory s)"
    and "steps_never_fail b" and "oracle_steady b"
  shows "\<exists>result s'. goal_step b goal results s = ((None, results @ [result], False), s')
     \<and> page_initialized s' \<and> legible (executionHistory s')
     \<and> maxSteps s' = maxSteps s \<and> stepCount s' = Suc (stepCount s)"
proof -
  define s1 where "s1 = s\<lparr>stepCount := stepCount s + 1\<rparr>"
  define s2 where "s2 = s1\<lparr>broadcasts := broadcasts s1 @ [StepStart (stepCount s1) goal]\<rparr>"
  have p2: "page_initialized s2" and h2: "executionHistory s2 = executionHistory s"
    using assms(1) by (simp_all add: s1_def s2_def)
  from takeScreenshot_ok [OF p2 assms(3)] obtain shot s3
    where t: "takeScreenshot b s2 = (Inr shot, s3)" and p3: "page_initialized s3"
      and h3: "executionHistory s3 = executionHistory s2"
    by auto
  from getCurrentPageSnapshot_ok [OF p3 assms(3)] obtain snap s4
    where g: "getCurrentPageSnapshot b s3 = (Inr snap, s4)" and p4: "page_initialized s4"
      and h4: "executionHistory s4 = executionHistory s3"
    by auto
  define s5 where
    "s5 = s4\<lparr>broadcasts := broadcasts s4
              @ [PageSnapshot (url snap) (length (elements snap)) (stepCount s4)]\<rparr>"
  have p5: "page_initialized s5" and h5: "executionHistory s5 = executionHistory s"
    using p4 h4 h3 h2 by (simp_all add: s5_def)
  from assms(2) h5 have l5: "legible (executionHistory s5)" by simp
  from decideNextAction_ok [OF assms(4) l5, of goal snap s5] p5 obtain d s6
    where dn: "decideNextAction b goal snap (executionHistory s5) s5 = (Inr (Some d), s6)"
      and st: "steady (Some d)" and p6: "page_initialized s6"
      and h6: "executionHistory s6 = executionHistory s5"
    by auto
  from st have d: "action d \<noteq> Str ''complete''" "printable (action d)"
    "printable (description d)"
    by (simp_all add: steady_def)
  from executeAction_ok [OF p6 d(3), of b snap] obtain result s7
    where ex: "executeAction b (Some d) snap s6 = (Inr result, s7)"
      and p7: "page_initialized s7"
      and h7: "executionHistory s7 = executionHistory s6 @ [result]"
      and f7: "res_action result = action d" "res_description result = description d"
    by auto
  have l7: "legible (executionHistory s7)"
    using assms(2) d(2,3) h7 h6 h5 f7
    by (simp add: legible_def)
  have actions: "step_actions b goal s = (Inr (Some d, result), s7)"
    using t g dn ex
    by (simp add: step_actions_def js_then_def js_bind_def set_state_def get_state_def
        broadcast_def js_return_def s1_def s2_def s5_def)
  define s8 where
    "s8 = (if res_success result then s7
           else s7\<lparr>broadcasts := broadcasts s7
                  @ [Warning (''Action failed: '' @ res_error result) (stepCount s7)]\<rparr>)"
  have p8: "page_initialized s8" and h8: "executionHistory s8 = executionHistory s7"
    using p7 by (simp_all add: s8_def)
  from assms(3) have "\<not> isl (fst (waitForTimeout b 1000 (world s8)))"
    by (simp add: steps_never_fail_def)
  from page_call_ok [where op = "waitForTimeout b 1000" and member = "''waitForTimeout''",
      OF p8 this] obtain u s9
    where w: "page_call ''waitForTimeout'' (waitForTimeout b 1000) s8 = (Inr u, s9)"
      and h9: "executionHistory s9 = executionHistory s8"
    by auto
  have finish: "step_finish b (Some d) result s7 = (Inr u, s9)"
    using d(1) w unfolding s8_def
    by (cases "res_success result")
      (simp_all add: step_finish_def js_then_def js_bind_def get_state_def broadcast_def
        js_return_def)
  have step: "goal_step b goal results s = ((None, results @ [result], False), s9)"
    using actions finish d(1) by (simp add: goal_step_def is_complete_def)
  from goal_step_control [OF step] assms(1) step l7 h8 h9 show ?thesis
    by (simp add: control_def)
qed

lemma goal_loop_stop:
  "completed \<or> \<not> stepCount s < maxSteps s
     \<Longrightarrow> goal_loop b goal results completed s = ((None, results, completed), s)"
  by (subst goal_loop.simps) auto

lemma goal_loop_turn:
  "\<not> completed \<Longrightarrow> stepCount s < maxSteps s
     \<Longrightarrow> goal_step b goal results s = ((None, results', completed'), s')
     \<Longrightarrow> goal_loop b goal results completed s = goal_loop b goal results' completed' s'"
  by (subst goal_loop.simps) simp

lemma goal_loop_throw:
  "\<not> completed \<Longrightarrow> stepCount s < maxSteps s
     \<Longrightarrow> goal_step b goal results s = ((Some e, results', completed'), s')
     \<Longrightarrow> goal_loop b goal results completed s = ((Some e, results', completed'), s')"
  by (subst goal_loop.simps) simp

text \<open>With no failing step and no \<open>complete\<close>, the loop runs until the budget is spent.\<close>

lemma goal_loop_runs_out:
  assumes "steps_never_fail b" and "oracle_steady b"
  shows "page_initialized s \<Longrightarrow> legible (executionHistory s) \<Longrightarrow> stepCount s \<le> maxSteps s
    \<Longrightarrow> n = maxSteps s - stepCount s
    \<Longrightarrow> \<exists>results' s'. goal_loop b goal results False s = ((None, results', False), s')
          \<and> length results' = length results + n
          \<and> page_initialized s' \<and> maxSteps s' = maxSteps s \<and> stepCount s' = maxSteps s"
proof (induction n arbitrary: s results)
  case 0
  then show ?case
    by (simp add: goal_loop_stop)
next
  case (Suc n)
  from Suc.prems have less: "stepCount s < maxSteps s" by simp
  from goal_step_ok [OF Suc.prems(1,2) assms, of goal results] obtain result s1
    where step: "goal_step b goal results s = ((None, results @ [result], False), s1)"
      and s1: "page_initialized s1" "legible (executionHistory s1)"
        "maxSteps s1 = maxSteps s" "stepCount s1 = Suc (stepCount s)"
    by auto
  from Suc.prems s1 have "stepCount s1 \<le> maxSteps s1" "n = maxSteps s1 - stepCount s1"
    by simp_all
  from Suc.IH [OF s1(1,2) this, of "results @ [result]"] s1
    goal_loop_turn [OF _ less step, of False]
  show ?case by auto
qed

text \<open>The loop never throws \<open>undefined\<close>.\<close>

lemma goal_step_defined:
  assumes "goal_step b goal results s = ((Some e, results', completed'), s')"
  shows "e \<noteq> ThrownUndefined"
proof -
  obtain r s1 where a: "step_actions b goal s = (r, s1)" by (cases "step_actions b goal s")
  from step_actions_control [OF a] have r: "r \<noteq> Inl ThrownUndefined" by simp
  show ?thesis
  proof (cases r)
    case (Inl x)
    with a assms r show ?thesis by (auto simp: goal_step_def)
  next
    case (Inr dr)
    obtain d result where dr: "dr = (d, result)" by (cases dr)
    obtain r2 s2 where f: "step_finish b d result s1 = (r2, s2)"
      by (cases "step_finish b d result s1")
    from tameD [OF tame_step_finish f] have "r2 \<noteq> Inl ThrownUndefined" by simp
    with a assms Inr dr f show ?thesis
      by (cases r2) (auto simp: goal_step_def)
  qed
qed

lemma goal_loop_defined:
  "goal_loop b goal results completed s = ((Some e, results', completed'), s')
     \<Longrightarrow> e \<noteq> ThrownUndefined"
proof (induction b goal results completed s rule: goal_loop.induct)
  case (1 b goal results completed s)
  show ?case
  proof (cases "\<not> completed \<and> stepCount s < maxSteps s")
    case False
    with "1.prems" show ?thesis
      by (subst (asm) goal_loop.simps) auto
  next
    case True
    obtain thrown rs c s1 where step: "goal_step b goal results s = ((thrown, rs, c), s1)"
      by (cases "goal_step b goal results s") auto
    show ?thesis
    proof (cases thrown)
      case None
      with True step "1.prems" have "goal_loop b goal rs c s1 = ((Some e, results', completed'), s')"
        by (subst (asm) goal_loop.simps) simp
      with "1.IH" [OF True step [symmetric] refl None refl] show ?thesis
        by simp
    next
      case (Some x)
      with True step "1.prems" have "x = e"
        by (subst (asm) goal_loop.simps) simp
      with Some step goal_step_defined [of b goal results s e rs c s1] show ?thesis
        by simp
    qed
  qed
qed

text \<open>What the two ends of \<open>executeGoal\<close> return.\<close>

lemma finish_goal_report:
  "finish_goal goal results completed s
     = (Inr (make_report (completed \<or> list_ex res_success results) None goal results
               (test_script goal (testSteps s)) (stepCount s) completed),
        s\<lparr>broadcasts :=
             broadcasts s
             @ (if stepCount s \<ge> maxSteps s then [MaxStepsReached (stepCount s)] else [])
             @ [ExecutionComplete
                  (make_report (completed \<or> list_ex res_success results) None goal results
                     (test_script goal (testSteps s)) (stepCount s) completed)]\<rparr>)"
  by (simp add: finish_goal_def generateTestCode_def js_bind_def js_then_def js_when_def
      get_state_def js_return_def broadcast_def)

lemma fail_goal_report:
  "fail_goal goal results (Error m) s
     = (Inr (make_report False (Some m) goal results (test_script goal (testSteps s))
               (stepCount s) False),
        s\<lparr>broadcasts :=
             broadcasts s
             @ [ExecutionError m
                  (make_report False (Some m) goal results (test_script goal (testSteps s))
                     (stepCount s) False)]\<rparr>)"
  by (simp add: fail_goal_def message_of_def generateTestCode_def js_bind_def js_then_def
      get_state_def js_return_def broadcast_def)

text \<open>\<open>executeGoal\<close> by what its loop does; the loop starts in \<open>goal_start b goal s\<close>.\<close>

definition goal_start :: "'w browser \<Rightarrow> string \<Rightarrow> 'w generator \<Rightarrow> 'w generator" where
  "goal_start b goal s =
     snd (waitForStability b
            (s\<lparr> currentGoal := Some goal, executionHistory := [], testSteps := [], stepCount := 0,
                 broadcasts := broadcasts s @ [ExecutionStart goal] \<rparr>))"

lemma goal_start_control:
  "page_initialized (goal_start b goal s) = page_initialized s"
  "maxSteps (goal_start b goal s) = maxSteps s"
  "stepCount (goal_start b goal s) = 0"
  "executionHistory (goal_start b goal s) = []"
proof -
  define s0 where "s0 = s\<lparr> currentGoal := Some goal, executionHistory := [], testSteps := [],
    stepCount := 0, broadcasts := broadcasts s @ [ExecutionStart goal] \<rparr>"
  obtain r s1 where w: "waitForStability b s0 = (r, s1)" by (cases "waitForStability b s0")
  note k = tame_keeps [OF tame_waitForStability w] appendsD(2) [OF appends_waitForStability w]
  from w have "goal_start b goal s = s1"
    by (simp add: goal_start_def s0_def)
  with k show "page_initialized (goal_start b goal s) = page_initialized s"
    "maxSteps (goal_start b goal s) = maxSteps s" "stepCount (goal_start b goal s) = 0"
    "executionHistory (goal_start b goal s) = []"
    by (simp_all add: s0_def)
qed

lemma executeGoal_unfold:
  "executeGoal b goal s =
     (case goal_loop b goal [] False (goal_start b goal s) of
        ((Some error, results, completed), s2) \<Rightarrow> fail_goal goal results error s2
      | ((None, results, completed), s2) \<Rightarrow> finish_goal goal results completed s2)"
proof -
  define s0 where "s0 = s\<lparr> currentGoal := Some goal, executionHistory := [], testSteps := [],
    stepCount := 0, broadcasts := broadcasts s @ [ExecutionStart goal] \<rparr>"
  obtain s1 where w: "waitForStability b s0 = (Inr (), s1)"
    using waitForStability_ok [of b s0] by auto
  then have "goal_start b goal s = s1"
    by (simp add: goal_start_def s0_def)
  with w show ?thesis
    by (simp add: executeGoal_def js_then_def js_bind_def set_state_def broadcast_def s0_def)
qed

section \<open>The claims\<close>

definition precedes :: "'a element_data_scheme \<Rightarrow> 'a element_data_scheme \<Rightarrow> bool" where
  "precedes a b =
     ((isInteractable b \<longrightarrow> isInteractable a)
      \<and> (isInteractable a = isInteractable b \<longrightarrow>
           (inViewport (position b) \<longrightarrow> inViewport (position a))
           \<and> (inViewport (position a) = inViewport (position b) \<longrightarrow>
                pos_y (position a) \<le> pos_y (position b))))"

lemma precedes_iff_order: "precedes a b \<longleftrightarrow> element_order a b \<le> 0"
  by (auto simp: precedes_def element_order_def)

lemma precedes_extend:
  "precedes (element_data.extend a m) (element_data.extend b m') = precedes a b"
  by (simp add: precedes_def element_data.defs)

lemma sorted_assign_index:
  "sorted_wrt precedes (assign_index els) \<longleftrightarrow> sorted_wrt precedes els"
  by (simp add: sorted_wrt_iff_nth_less length_assign_index nth_assign_index precedes_extend)

text \<open>
  C1. In every snapshot the \<open>index\<close> fields of the element list are 0, 1, ... up to the
  length of the list less one, the list has at most 75 elements, and it is ordered:
  of two elements the earlier one is interactable when the later one is; when both
  agree on that, the earlier one is in the viewport when the later one is; and when
  they agree on that too, the earlier one has the smaller or the same vertical position.
\<close>

theorem snapshot_indexed_capped_sorted:
  "map index (elements (page_script doc)) = [0..<length (elements (page_script doc))]
   \<and> length (elements (page_script doc)) \<le> 75
   \<and> sorted_wrt precedes (elements (page_script doc))"
proof -
  have "sorted_wrt precedes (js_sort element_order (scanned_elements doc))"
    using sorted_element_order [of "scanned_elements doc"]
    by (simp add: precedes_iff_order [abs_def])
  then have "sorted_wrt precedes (take 75 (js_sort element_order (scanned_elements doc)))"
    by (rule sorted_wrt_take)
  then show ?thesis
    by (simp add: page_script_def index_assign_index length_assign_index sorted_assign_index)
qed

theorem snapshot_indexed_capped_sorted_witness:
  "map tag (elements (page_script demo_document)) = [''button'', ''button'', ''a'', ''p'']
   \<and> map elem_text (elements (page_script demo_document)) = [''stop'', ''send'', ''more'', ''intro'']
   \<and> map isInteractable (elements (page_script demo_document)) = [True, True, True, False]
   \<and> map (\<lambda>el. inViewport (position el)) (elements (page_script demo_document))
       = [True, True, False, True]
   \<and> map (\<lambda>el. pos_y (position el)) (elements (page_script demo_document)) = [40, 100, 700, 300]
   \<and> map index (elements (page_script demo_document)) = [0, 1, 2, 3]
   \<and> length (elements (page_script demo_document)) \<le> 75
   \<and> sorted_wrt precedes (elements (page_script demo_document))"
proof -
  have "map tag (elements (page_script demo_document)) = [''button'', ''button'', ''a'', ''p'']"
    by code_simp
  moreover have "map elem_text (elements (page_script demo_document))
      = [''stop'', ''send'', ''more'', ''intro'']"
    by code_simp
  moreover have "map isInteractable (elements (page_script demo_document))
      = [True, True, True, False]"
    by code_simp
  moreover have "map (\<lambda>el. inViewport (position el)) (elements (page_script demo_document))
      = [True, True, False, True]"
    by code_simp
  moreover have "map (\<lambda>el. pos_y (position el)) (elements (page_script demo_document))
      = [40, 100, 700, 300]"
    by code_simp
  moreover have "length (elements (page_script demo_document)) = 4"
    by code_simp
  ultimately show ?thesis
    using snapshot_indexed_capped_sorted [of demo_document]
    by (simp add: upt_rec)
qed




text \<open>
  C3. The retry of an action whose runs end as the script \<open>outcome\<close> says, in a browser
  whose pauses complete. The executor runs the action \<open>n\<close> times with \<open>n\<close> from 1 to 3;
  after the failed run \<open>k\<close> it asks for a pause of \<open>k\<close> times 1000 ms and sends one retry
  notification, carrying that run's message; every run but the last one failed, and the
  executor stops before the third run only on a success; what it returns or throws is
  the outcome of the last run. So two failures and then a success give the success and
  exactly two retry notifications, and three failures throw the third error.
\<close>

theorem retry_three_attempts_linear_backoff:
  fixes outcome :: "nat \<Rightarrow> string + 'a"
  shows
    "(let run = executeActionWithRetry calm_browser (scripted outcome) 3 (new_generator sim_start);
          n = attempts (world (snd run))
      in 1 \<le> n \<and> n \<le> 3
         \<and> pauses (world (snd run)) = map (\<lambda>k. 1000 * int k) [1..<n]
         \<and> broadcasts (snd run)
             = map (\<lambda>k. Retry (retry_message k 3) (failure (outcome (k - 1)))) [1..<n]
         \<and> fst run = map_sum Error id (outcome (n - 1))
         \<and> (\<forall>k. k < n - 1 \<longrightarrow> isl (outcome k))
         \<and> (n < 3 \<longrightarrow> \<not> isl (outcome (n - 1)))
         \<and> (\<forall>v. isl (outcome 0) \<and> isl (outcome 1) \<and> outcome 2 = Inr v
                \<longrightarrow> fst run = Inr v \<and> length (filter is_retry (broadcasts (snd run))) = 2)
         \<and> (\<forall>m. isl (outcome 0) \<and> isl (outcome 1) \<and> outcome 2 = Inl m
                \<longrightarrow> fst run = Inl (Error m)))"
proof -
  have s0: "attempts (world (new_generator sim_start)) = 0"
    "pauses (world (new_generator sim_start)) = []"
    "broadcasts (new_generator sim_start) = []"
    "page_initialized (new_generator sim_start)"
    by (simp_all add: new_generator_def sim_start_def)
  have upt: "[1..<3] = [1, 2]" "[1..<2] = [1]" "[1..<1] = []"
    by (simp_all add: upt_rec)
  have small: "(\<forall>k<Suc (Suc 0). P k) \<longleftrightarrow> P 0 \<and> P (Suc 0)" for P
    by (auto simp: less_Suc_eq)
  have two: "outcome 2 = outcome (Suc (Suc 0))"
    by (simp add: numeral_2_eq_2)
  note ev = executeActionWithRetry_def scripted_retry scripted_done scripted_last s0
    failure_def is_retry_def Let_def upt small two
  consider (one) "\<not> isl (outcome 0)"
    | (two) "isl (outcome 0)" "\<not> isl (outcome 1)"
    | (three) "isl (outcome 0)" "isl (outcome 1)"
    by blast
  then show ?thesis
  proof cases
    case one
    then show ?thesis
      by (simp add: ev)
  next
    case two
    then show ?thesis
      by (simp add: ev)
  next
    case three
    then show ?thesis
      by (cases "outcome (Suc (Suc 0))") (simp_all add: ev)
  qed
qed

theorem retry_three_attempts_linear_backoff_witness:
  "isl (third_time_lucky 0) \<and> isl (third_time_lucky 1) \<and> third_time_lucky 2 = Inr ''done''
   \<and> fst (executeActionWithRetry calm_browser (scripted third_time_lucky) 3
             (new_generator sim_start)) = Inr ''done''
   \<and> attempts (world (snd (executeActionWithRetry calm_browser (scripted third_time_lucky) 3
             (new_generator sim_start)))) = 3
   \<and> pauses (world (snd (executeActionWithRetry calm_browser (scripted third_time_lucky) 3
             (new_generator sim_start)))) = [1000, 2000]
   \<and> length (filter is_retry
        (broadcasts (snd (executeActionWithRetry calm_browser (scripted third_time_lucky) 3
             (new_generator sim_start))))) = 2"
proof -
  have script: "isl (third_time_lucky 0)" "isl (third_time_lucky 1)"
    "third_time_lucky 2 = Inr ''done''"
    by (simp_all add: third_time_lucky_def)
  have run: "attempts (world (snd (executeActionWithRetry calm_browser (scripted third_time_lucky) 3
             (new_generator sim_start)))) = 3"
    "pauses (world (snd (executeActionWithRetry calm_browser (scripted third_time_lucky) 3
             (new_generator sim_start)))) = [1000, 2000]"
    by code_simp+
  from retry_three_attempts_linear_backoff [of third_time_lucky]
  have "isl (third_time_lucky 0) \<and> isl (third_time_lucky 1) \<and> third_time_lucky 2 = Inr ''done''
      \<longrightarrow> fst (executeActionWithRetry calm_browser (scripted third_time_lucky) 3
             (new_generator sim_start)) = Inr ''done''
        \<and> length (filter is_retry
        (broadcasts (snd (executeActionWithRetry calm_browser (scripted third_time_lucky) 3
             (new_generator sim_start))))) = 2"
    unfolding Let_def by blast
  with script run show ?thesis
    by simp
qed

text \<open>
  C4, as the code has it. Take a browser in which the screenshot, the snapshot script
  and the pause after a step never fail, and whose oracle always answers with a decision
  that is not \<open>null\<close>, never with the action \<open>complete\<close>, and with an action and a
  description that can be written as strings. Then, with the page initialized,
  \<open>executeGoal\<close> runs exactly \<open>maxSteps\<close> turns of its loop: the report counts
  \<open>maxSteps\<close> steps and holds as many results, \<open>goalCompleted\<close> is \<open>false\<close>, no error
  is reported, and the last two events are \<open>max_steps_reached\<close> and
  \<open>execution_complete\<close>.
\<close>

theorem goal_loop_spends_budget:
  assumes "page_initialized s" and "steps_never_fail b" and "oracle_steady b"
  shows "\<exists>rep s'.
           executeGoal b goal s = (Inr rep, s')
           \<and> totalSteps (executionSummary rep) = maxSteps s
           \<and> length (rep_steps rep) = maxSteps s
           \<and> \<not> goalCompleted (executionSummary rep)
           \<and> rep_error rep = None
           \<and> (\<exists>evs. broadcasts s'
                 = evs @ [MaxStepsReached (maxSteps s), ExecutionComplete rep])"
proof -
  define s1 where "s1 = goal_start b goal s"
  have start: "page_initialized s1" "maxSteps s1 = maxSteps s" "stepCount s1 = 0"
    "legible (executionHistory s1)"
    using assms(1) by (simp_all add: s1_def goal_start_control legible_def)
  then have "stepCount s1 \<le> maxSteps s1" "maxSteps s = maxSteps s1 - stepCount s1"
    by simp_all
  from goal_loop_runs_out [OF assms(2,3) start(1,4) this, of goal "[]"] obtain results s2
    where run: "goal_loop b goal [] False s1 = ((None, results, False), s2)"
      and results: "length results = maxSteps s"
      and s2: "maxSteps s2 = maxSteps s1" "stepCount s2 = maxSteps s1"
    by auto
  from run have "executeGoal b goal s = finish_goal goal results False s2"
    by (simp add: executeGoal_unfold s1_def)
  with results s2 start(2) show ?thesis
    by (simp add: finish_goal_report make_report_def)
qed

theorem goal_loop_spends_budget_witness:
  "page_initialized (new_generator sim_start) \<and> steps_never_fail calm_browser
   \<and> oracle_steady calm_browser
   \<and> (\<exists>rep s'.
         executeGoal calm_browser ''log in'' (new_generator sim_start) = (Inr rep, s')
         \<and> totalSteps (executionSummary rep) = 15
         \<and> length (rep_steps rep) = 15
         \<and> \<not> goalCompleted (executionSummary rep)
         \<and> (\<exists>evs. broadcasts s' = evs @ [MaxStepsReached 15, ExecutionComplete rep]))"
proof -
  have init: "page_initialized (new_generator sim_start)"
    "maxSteps (new_generator sim_start) = 15"
    by (simp_all add: new_generator_def)
  have calm: "steps_never_fail calm_browser"
    by (simp add: steps_never_fail_def calm_browser_def)
  have idle: "steady (Some idle_decision)"
    by code_simp
  then have answers: "oracle_steady calm_browser"
    by (simp add: oracle_steady_def calm_browser_def always_idle_def)
  from goal_loop_spends_budget [OF init(1) calm answers, of "''log in''"] init calm answers
  show ?thesis by auto
qed

text \<open>
  C4, as the claim has it, fails when a step throws. In a browser whose page cannot be
  photographed, with the same oracle, which never answers \<open>complete\<close>, the first
  screenshot fails and the \<open>catch\<close> block ends the run: of the 15 steps allowed one was
  begun, no result was recorded, and no \<open>max_steps_reached\<close> event was sent.
\<close>

theorem goal_loop_stops_at_first_throw:
  "page_initialized (new_generator sim_start)
   \<and> maxSteps (new_generator sim_start) = 15
   \<and> oracle_steady broken_camera
   \<and> map_sum id (\<lambda>rep. totalSteps (executionSummary rep))
         (fst (executeGoal broken_camera ''log in'' (new_generator sim_start))) = Inr 1
   \<and> map_sum id rep_steps
         (fst (executeGoal broken_camera ''log in'' (new_generator sim_start))) = Inr []
   \<and> map_sum id rep_error
         (fst (executeGoal broken_camera ''log in'' (new_generator sim_start)))
       = Inr (Some ''Target closed'')
   \<and> map_sum id (\<lambda>rep. goalCompleted (executionSummary rep))
         (fst (executeGoal broken_camera ''log in'' (new_generator sim_start))) = Inr False
   \<and> filter is_max_steps
         (broadcasts (snd (executeGoal broken_camera ''log in'' (new_generator sim_start)))) = []"
proof -
  have "page_initialized (new_generator sim_start)" "maxSteps (new_generator sim_start) = 15"
    by (simp_all add: new_generator_def)
  moreover have "steady (Some idle_decision)"
    by code_simp
  then have "oracle_steady broken_camera"
    by (simp add: oracle_steady_def broken_camera_def calm_browser_def always_idle_def)
  moreover have "map_sum id (\<lambda>rep. totalSteps (executionSummary rep))
         (fst (executeGoal broken_camera ''log in'' (new_generator sim_start))) = Inr 1"
    by code_simp
  moreover have "map_sum id rep_steps
         (fst (executeGoal broken_camera ''log in'' (new_generator sim_start))) = Inr []"
    by code_simp
  moreover have "map_sum id rep_error
         (fst (executeGoal broken_camera ''log in'' (new_generator sim_start)))
       = Inr (Some ''Target closed'')"
    by code_simp
  moreover have "map_sum id (\<lambda>rep. goalCompleted (executionSummary rep))
         (fst (executeGoal broken_camera ''log in'' (new_generator sim_start))) = Inr False"
    by code_simp
  moreover have "filter is_max_steps
         (broadcasts (snd (executeGoal broken_camera ''log in'' (new_generator sim_start)))) = []"
    by code_simp
  ultimately show ?thesis by blast
qed

text \<open>
  C5, on the code. A \<open>clear\<close> or a \<open>hover\<close> decision that aims at element 7 of the demo
  snapshot, which has four elements, ends with \<open>success = false\<close> and an empty \<open>error\<close>
  and an empty script line: the failure carries no message, where \<open>click\<close> on the same
  target says \<open>Element index 7 not found\<close>. This holds in every browser and world, for
  the decision asks for no wait.
\<close>

theorem clear_and_hover_fail_without_message:
  "fst (executeAction b (Some (aim_at_seven ''clear'')) demo_snapshot (new_generator w))
     = Inr \<lparr> res_action = Str ''clear'', res_target = Str ''7'', res_value = Undefined,
             res_description = Str ''empty the search field'', res_success = False,
             res_error = [], res_reasoning = Str ''the field is stale'',
             res_confidence = Str ''high'', res_playwrightCode = [] \<rparr>
   \<and> fst (executeAction b (Some (aim_at_seven ''hover'')) demo_snapshot (new_generator w))
     = Inr \<lparr> res_action = Str ''hover'', res_target = Str ''7'', res_value = Undefined,
             res_description = Str ''empty the search field'', res_success = False,
             res_error = [], res_reasoning = Str ''the field is stale'',
             res_confidence = Str ''high'', res_playwrightCode = [] \<rparr>
   \<and> length (elements demo_snapshot) = 4"
proof -
  have seven: "parseInt (Str ''7'') = Inr (Some 7)"
    by code_simp
  have missing: "element_at demo_snapshot (Some 7) = None"
    by code_simp
  have four: "length (elements demo_snapshot) = 4"
    by code_simp
  have target: "js_lift (parseInt (target (aim_at_seven a))) = js_return (Some 7)" for a
    by (simp add: aim_at_seven_def seven js_lift_def)
  have perform: "perform b (aim_at_seven a) demo_snapshot = js_return (False, [])"
    if "a = ''clear'' \<or> a = ''hover''" for a
  proof -
    have "do_clear b (aim_at_seven a) demo_snapshot = js_return (False, [])"
      and "do_hover b (aim_at_seven a) demo_snapshot = js_return (False, [])"
      by (simp_all add: do_clear_def do_hover_def target missing js_bind_def js_return_def)
    moreover have "action (aim_at_seven a) = Str a"
      by (simp add: aim_at_seven_def)
    ultimately show ?thesis
      using that by (auto simp: perform_def)
  qed
  have "guarded_body b (aim_at_seven a) demo_snapshot s = (Inr (False, [], []), s)"
    if "a = ''clear'' \<or> a = ''hover''" for a and s :: "'a generator"
  proof -
    have flags: "\<not> truthy (waitBefore (aim_at_seven a))" "waitAfter (aim_at_seven a) = Bool False"
      by (simp_all add: aim_at_seven_def truthy_def)
    show ?thesis
      by (simp add: guarded_body_def action_body_def perform [OF that] flags js_try_def
          js_bind_def js_then_def js_when_def js_return_def)
  qed
  then show ?thesis
    using four
    by (simp add: executeAction_unfold new_generator_def make_result_def aim_at_seven_def)
qed

text \<open>
  C6, as the code has it. The generic pass goes over every element of the document,
  skips the ones the interactive pass processed, and appends the descriptor of each
  visible element with non-empty text for as long as the list has fewer than 100
  elements: it stops at 100, not at the cap of 75, so the pass itself never takes the
  list past 100 elements. The cap of 75 is applied afterwards, when the sorted list is
  cut.
\<close>

theorem generic_pass_stops_at_100:
  "snd (fold (generic_step win) every (processed, els))
     = els @ take (100 - length els)
         (filter (\<lambda>d. length (elem_text d) > 0)
            (List.map_filter (processElement win)
               (filter (\<lambda>e. el_node e \<notin> processed) every)))
   \<and> length (snd (fold (generic_step win) every (processed, els))) \<le> max 100 (length els)
   \<and> length (elements (page_script doc)) \<le> 75"
  by (simp add: fold_generic_step page_script_def length_assign_index)

theorem generic_pass_stops_at_100_witness:
  "length (scanned_elements (paragraphs 120)) = 100
   \<and> length (snd (fold (generic_step desktop) (allElements (paragraphs 120)) ({}, []))) \<le> 100
   \<and> length (elements (page_script (paragraphs 120))) \<le> 75"
  using generic_pass_stops_at_100 [of desktop "allElements (paragraphs 120)" "{}" "[]" "paragraphs 120"]
    scanned_paragraphs [of 120]
  by simp

text \<open>
  The claim as stated fails on a page of 80 paragraphs: the interactive query collects
  nothing, and the generic pass collects all 80 of them, five more than the cap.
\<close>

theorem generic_pass_exceeds_cap:
  "length (scanned_elements (paragraphs 80)) = 80
   \<and> \<not> length (scanned_elements (paragraphs 80)) \<le> 75"
  using scanned_paragraphs [of 80] by simp










text \<open>
  C10. \<open>executeGoal\<close> always returns a report. When the report carries no error, which
  is when nothing was thrown out of the loop, its \<open>success\<close> is \<open>goalCompleted\<close> or
  that some recorded step succeeded; when it carries an error, \<open>success\<close> is \<open>false\<close>.
\<close>

theorem report_success_is_completed_or_some_step:
  "\<exists>rep s'.
     executeGoal b goal s = (Inr rep, s')
     \<and> (rep_error rep = None \<longrightarrow>
          rep_success rep
            = (goalCompleted (executionSummary rep) \<or> list_ex res_success (rep_steps rep)))
     \<and> (rep_error rep \<noteq> None \<longrightarrow> \<not> rep_success rep)"
proof -
  obtain thrown results completed s2
    where run: "goal_loop b goal [] False (goal_start b goal s) = ((thrown, results, completed), s2)"
    by (cases "goal_loop b goal [] False (goal_start b goal s)") auto
  show ?thesis
  proof (cases thrown)
    case None
    with run have "executeGoal b goal s = finish_goal goal results completed s2"
      by (simp add: executeGoal_unfold)
    then show ?thesis
      by (simp add: finish_goal_report make_report_def)
  next
    case (Some e)
    with run goal_loop_defined [of b goal "[]" False "goal_start b goal s" e results completed s2]
    obtain m where "e = Error m"
      by (cases e) auto
    with Some run have "executeGoal b goal s = fail_goal goal results (Error m) s2"
      by (simp add: executeGoal_unfold)
    then show ?thesis
      by (simp add: fail_goal_report make_report_def)
  qed
qed

text \<open>
  In particular \<open>success\<close> can be \<open>true\<close> while \<open>goalCompleted\<close> is \<open>false\<close>: a run of
  one step whose action, a wait, succeeds.
\<close>

theorem report_success_is_completed_or_some_step_witness:
  "\<exists>rep s'.
     executeGoal calm_browser ''log in'' one_step = (Inr rep, s')
     \<and> rep_error rep = None \<and> rep_success rep
     \<and> \<not> goalCompleted (executionSummary rep)
     \<and> list_ex res_success (rep_steps rep)"
proof -
  have error: "map_sum id rep_error (fst (executeGoal calm_browser ''log in'' one_step))
      = Inr None"
    by code_simp
  have success: "map_sum id rep_success (fst (executeGoal calm_browser ''log in'' one_step))
      = Inr True"
    by code_simp
  have completed: "map_sum id (\<lambda>rep. goalCompleted (executionSummary rep))
      (fst (executeGoal calm_browser ''log in'' one_step)) = Inr False"
    by code_simp
  from report_success_is_completed_or_some_step [of calm_browser "''log in''" one_step]
  obtain rep s' where run: "executeGoal calm_browser ''log in'' one_step = (Inr rep, s')"
    and law: "rep_error rep = None \<longrightarrow>
        rep_success rep
          = (goalCompleted (executionSummary rep) \<or> list_ex res_success (rep_steps rep))"
    by auto
  from run error success completed have "rep_error rep = None" "rep_success rep"
    "\<not> goalCompleted (executionSummary rep)"
    by simp_all
  with run law show ?thesis by auto
qed

end
